theory Spec2Isabelle
  imports Complex_Main "HOL-Library.AList"
begin

section \<open>The booking modal of the ride-rental site\<close>

text \<open>
  This theory embeds the booking form component (\<^verbatim>\<open>BookingModal\<close>, the second module of
  \<^verbatim>\<open>src/components/DateTimeBookingTest.tsx\<close>): the validator \<^verbatim>\<open>validateForm\<close>, the pricing
  calculator \<^verbatim>\<open>calculatePrice\<close>, the persistence functions and the submission orchestrator
  \<^verbatim>\<open>submitBooking\<close>, and the input handler \<^verbatim>\<open>handleInputChange\<close>.

  Numbers. A number of the language is a double. The price per day, a property of the
  component, is held as the fraction the double stands for, and so are the amounts of the
  quote; the arithmetic of the pricing calculator is the arithmetic of doubles, every
  product and difference rounded to 53 significant bits. The days and weeks of the form are
  integers (the duration input parses and clamps them) and are held as \<^typ>\<open>int\<close>.
\<close>

subsection \<open>Strings\<close>

text \<open>\<^verbatim>\<open>String.prototype.startsWith\<close> and \<^verbatim>\<open>String.prototype.includes\<close>.\<close>

fun startsWith :: "string \<Rightarrow> string \<Rightarrow> bool" where
  "startsWith s [] = True"
| "startsWith [] (p # ps) = False"
| "startsWith (c # cs) (p # ps) = (c = p \<and> startsWith cs ps)"

fun includes_str :: "string \<Rightarrow> string \<Rightarrow> bool" where
  "includes_str [] p = (p = [])"
| "includes_str (c # cs) p = (startsWith (c # cs) p \<or> includes_str cs p)"

text \<open>
  A string is a list of code units; the model has the code units below 256. Among them the
  white space of the language (what \<^verbatim>\<open>trim\<close> removes and \<^verbatim>\<open>\s\<close> matches) is tab, line feed,
  vertical tab, form feed, carriage return, space and the no-break space.
\<close>

definition is_space :: "char \<Rightarrow> bool" where
  "is_space c = ((of_char c :: nat) \<in> {9, 10, 11, 12, 13, 32, 160})"

definition trim :: "string \<Rightarrow> string" where
  "trim s = rev (dropWhile is_space (rev (dropWhile is_space s)))"

text \<open>\<^verbatim>\<open>s.replace(/\s+/g, '')\<close>: every run of white space is removed.\<close>

definition strip_spaces :: "string \<Rightarrow> string" where
  "strip_spaces s = filter (\<lambda>c. \<not> is_space c) s"

subsection \<open>Numbers\<close>

text \<open>
  A number of the language is a double: a sign, a significand of 53 bits and a power of
  two. A finite double is held as the fraction it stands for, a \<^typ>\<open>rat\<close>; the two
  durations of the form, integers that the duration input has clamped, are held as
  \<^typ>\<open>int\<close>. The result of an operation is the exact result rounded to the nearest double,
  ties to the even significand. The exponent range is not modelled: there is no
  \<^verbatim>\<open>Infinity\<close> (a magnitude from \<open>2 ^ 1024\<close> on) and no loss of bits below \<open>2 ^ -1022\<close>.

  \<open>bit_length n\<close> is the number of binary digits of a positive \<open>n\<close>, and
  \<open>round_to_53 N\<close> is the integer \<open>N\<close> rounded to 53 significant bits: below \<open>2 ^ 53\<close>
  it is \<open>N\<close>, above, the nearest multiple of \<open>2 ^ k\<close> for the \<open>k\<close> that leaves 53 bits.
  The exact product or difference of two doubles is a fraction \<open>n / 2 ^ j\<close> in lowest
  terms, and rounding it to 53 significant bits rounds its numerator: this is \<open>fl\<close>.
\<close>

function bit_length :: "int \<Rightarrow> nat" where
  "bit_length n = (if n \<le> 0 then 0 else Suc (bit_length (n div 2)))"
  by pat_completeness auto
termination
  by (relation "measure nat") auto

declare bit_length.simps [simp del]

definition round_to_53 :: "int \<Rightarrow> int" where
  "round_to_53 N =
     (if \<bar>N\<bar> < 2 ^ 53 then N
      else let k = bit_length \<bar>N\<bar> - 53; q = \<bar>N\<bar> div 2 ^ k; r = \<bar>N\<bar> mod 2 ^ k
           in sgn N * ((if 2 ^ k < 2 * r \<or> (2 * r = 2 ^ k \<and> odd q) then q + 1 else q) * 2 ^ k))"

definition fl :: "rat \<Rightarrow> rat" where
  "fl x = (case quotient_of x of (n, d) \<Rightarrow> of_int (round_to_53 n) / of_int d)"

text \<open>\<^verbatim>\<open>a * b\<close> and \<^verbatim>\<open>a - b\<close>.\<close>

definition Number_times :: "rat \<Rightarrow> rat \<Rightarrow> rat" where
  "Number_times a b = fl (a * b)"

definition Number_minus :: "rat \<Rightarrow> rat \<Rightarrow> rat" where
  "Number_minus a b = fl (a - b)"

text \<open>The literals \<^verbatim>\<open>0.65\<close> and \<^verbatim>\<open>0.9\<close>: the doubles nearest to these decimals.\<close>

definition double_065 :: rat where
  "double_065 = 5854679515581645 / 2 ^ 53"

definition double_09 :: rat where
  "double_09 = 8106479329266893 / 2 ^ 53"

text \<open>
  \<^verbatim>\<open>Math.round(x)\<close> is \<open>floor(x + 0.5)\<close>, taken exactly: for a double \<open>x\<close> it is an integer
  that is a double again.
\<close>

definition Math_round :: "rat \<Rightarrow> int" where
  "Math_round x = \<lfloor>x + 1 / 2\<rfloor>"

subsection \<open>The data of the form\<close>

record BookingData =
  category :: string
  model :: string
  pricePerDay :: rat

datatype bookingType = daily | weekly

record FormData =
  name :: string
  contact :: string
  address :: string
  days :: int
  bookingType :: bookingType
  weeks :: int
  pickupDate :: string
  returnDate :: string
  pickupTime :: string
  returnTime :: string

subsection \<open>The pricing calculator\<close>

text \<open>The object returned by \<^verbatim>\<open>calculatePrice\<close>; its first field is \<^verbatim>\<open>pricePerDay\<close>.\<close>

record PriceQuote =
  quotePricePerDay :: rat
  totalPrice :: rat
  discount :: bool
  weeklyDiscount :: bool
  originalPrice :: rat
  savings :: rat

definition calculatePrice :: "BookingData option \<Rightarrow> FormData \<Rightarrow> PriceQuote" where
  "calculatePrice bookingData formData =
     (case bookingData of
        None \<Rightarrow>
          \<lparr>quotePricePerDay = 0, totalPrice = 0, discount = False, weeklyDiscount = False,
           originalPrice = 0, savings = 0\<rparr>
      | Some bd \<Rightarrow>
          if bookingType formData = weekly then
            let daysInWeeks = Number_times (of_int (weeks formData)) 7;
                original = Number_times (pricePerDay bd) daysInWeeks;
                total = of_int (Math_round (Number_times original double_065))
            in \<lparr>quotePricePerDay = pricePerDay bd, totalPrice = total, discount = False,
                weeklyDiscount = True, originalPrice = original,
                savings = Number_minus original total\<rparr>
          else
            let total = Number_times (pricePerDay bd) (of_int (days formData));
                original = total
            in if days formData = 1 \<and>
                  (includes_str (model bd) ''Pulsar 150'' \<or> includes_str (model bd) ''Pulsar 125'')
               then
                 let total' = of_int (Math_round (Number_times total double_09))
                 in \<lparr>quotePricePerDay = pricePerDay bd, totalPrice = total', discount = True,
                     weeklyDiscount = False, originalPrice = original,
                     savings = Number_minus original total'\<rparr>
               else
                 \<lparr>quotePricePerDay = pricePerDay bd, totalPrice = total, discount = False,
                  weeklyDiscount = False, originalPrice = original, savings = 0\<rparr>)"

subsection \<open>Decimal numerals\<close>

text \<open>The decimal digits of an integer, as \<^verbatim>\<open>String(n)\<close> writes them.\<close>

definition digit_char :: "int \<Rightarrow> char" where
  "digit_char d = char_of (48 + d)"

function digits :: "int \<Rightarrow> string" where
  "digits n = (if n < 10 then [digit_char n] else digits (n div 10) @ [digit_char (n mod 10)])"
  by pat_completeness auto
termination
  by (relation "measure nat") auto

declare digits.simps [simp del]

definition String_int :: "int \<Rightarrow> string" where
  "String_int i = (if i < 0 then CHR ''-'' # digits (- i) else digits i)"

text \<open>\<^verbatim>\<open>String.prototype.padStart(k, '0')\<close>.\<close>

definition padStart0 :: "nat \<Rightarrow> string \<Rightarrow> string" where
  "padStart0 k s = replicate (k - length s) CHR ''0'' @ s"

definition is_digit :: "char \<Rightarrow> bool" where
  "is_digit c = (48 \<le> (of_char c :: nat) \<and> (of_char c :: nat) \<le> 57)"

definition digit_val :: "char \<Rightarrow> int" where
  "digit_val c = of_char c - 48"

text \<open>The value of a string of decimal digits; \<open>None\<close> when it is empty or has another character.\<close>

definition decimal :: "string \<Rightarrow> int option" where
  "decimal s = (if s \<noteq> [] \<and> list_all is_digit s
                then Some (foldl (\<lambda>a c. 10 * a + digit_val c) 0 s) else None)"

subsection \<open>Dates\<close>

text \<open>
  The \<^verbatim>\<open>Date\<close> object, after the language specification (ECMA-262, Date objects). A time
  value is a number of milliseconds since 1970-01-01T00:00Z, or \<^verbatim>\<open>NaN\<close> (an invalid date):
  \<open>int option\<close>, with \<open>None\<close> for \<^verbatim>\<open>NaN\<close>.
\<close>

definition msPerDay :: int where
  "msPerDay = 86400000"

definition Day :: "int \<Rightarrow> int" where
  "Day t = t div msPerDay"

definition TimeWithinDay :: "int \<Rightarrow> int" where
  "TimeWithinDay t = t mod msPerDay"

definition DaysInYear :: "int \<Rightarrow> int" where
  "DaysInYear y =
     (if y mod 4 \<noteq> 0 then 365 else if y mod 100 \<noteq> 0 then 366
      else if y mod 400 \<noteq> 0 then 365 else 366)"

definition DayFromYear :: "int \<Rightarrow> int" where
  "DayFromYear y =
     365 * (y - 1970) + (y - 1969) div 4 - (y - 1901) div 100 + (y - 1601) div 400"

text \<open>
  \<^verbatim>\<open>YearFromTime(t)\<close> is the largest \<open>y\<close> with \<open>DayFromYear y \<le> Day t\<close>. It is computed from
  the mean length of a year (146097 days in 400 years), which is off by at most one.
\<close>

definition YearFromTime :: "int \<Rightarrow> int" where
  "YearFromTime t =
     (let d = Day t; y = 1970 + (400 * d) div 146097
      in if DayFromYear (y + 1) \<le> d then y + 1 else if d < DayFromYear y then y - 1 else y)"

definition InLeapYear :: "int \<Rightarrow> bool" where
  "InLeapYear t = (DaysInYear (YearFromTime t) = 366)"

definition DayWithinYear :: "int \<Rightarrow> int" where
  "DayWithinYear t = Day t - DayFromYear (YearFromTime t)"

text \<open>The day of the year on which month \<open>m\<close> (0 is January) starts.\<close>

definition monthStart :: "bool \<Rightarrow> int \<Rightarrow> int" where
  "monthStart leap m =
     (let l = (if leap then 1 else 0)
      in if m = 0 then 0 else if m = 1 then 31 else if m = 2 then 59 + l
         else if m = 3 then 90 + l else if m = 4 then 120 + l else if m = 5 then 151 + l
         else if m = 6 then 181 + l else if m = 7 then 212 + l else if m = 8 then 243 + l
         else if m = 9 then 273 + l else if m = 10 then 304 + l else 334 + l)"

definition MonthFromTime :: "int \<Rightarrow> int" where
  "MonthFromTime t =
     (let d = DayWithinYear t; l = (if InLeapYear t then 1 else 0)
      in if d < 31 then 0 else if d < 59 + l then 1 else if d < 90 + l then 2
         else if d < 120 + l then 3 else if d < 151 + l then 4 else if d < 181 + l then 5
         else if d < 212 + l then 6 else if d < 243 + l then 7 else if d < 273 + l then 8
         else if d < 304 + l then 9 else if d < 334 + l then 10 else 11)"

definition DateFromTime :: "int \<Rightarrow> int" where
  "DateFromTime t = DayWithinYear t - monthStart (InLeapYear t) (MonthFromTime t) + 1"

definition HourFromTime :: "int \<Rightarrow> int" where
  "HourFromTime t = (t div 3600000) mod 24"

definition MinFromTime :: "int \<Rightarrow> int" where
  "MinFromTime t = (t div 60000) mod 60"

definition SecFromTime :: "int \<Rightarrow> int" where
  "SecFromTime t = (t div 1000) mod 60"

definition msFromTime :: "int \<Rightarrow> int" where
  "msFromTime t = t mod 1000"

definition MakeTime :: "int \<Rightarrow> int \<Rightarrow> int \<Rightarrow> int \<Rightarrow> int" where
  "MakeTime h m s ms = h * 3600000 + m * 60000 + s * 1000 + ms"

text \<open>
  \<^verbatim>\<open>MakeDay(year, month, date)\<close>: the day number of the first of the month, plus
  \<open>date - 1\<close>; a date beyond the end of the month runs into the following months.
\<close>

definition MakeDay :: "int \<Rightarrow> int \<Rightarrow> int \<Rightarrow> int" where
  "MakeDay year month date =
     (let ym = year + month div 12; mn = month mod 12
      in DayFromYear ym + monthStart (DaysInYear ym = 366) mn + date - 1)"

definition MakeDate :: "int \<Rightarrow> int \<Rightarrow> int" where
  "MakeDate day time = day * msPerDay + time"

definition TimeClip :: "int \<Rightarrow> int option" where
  "TimeClip t = (if \<bar>t\<bar> \<le> 8640000000000000 then Some t else None)"

text \<open>
  The time zone of the host: \<open>LocalTZA z t True\<close> is the offset of local time from UTC, in
  milliseconds, in effect at the UTC time value \<open>t\<close>; \<open>LocalTZA z t False\<close> is the offset
  used to read \<open>t\<close> as a local time value. The host supplies it.
\<close>

record zone =
  LocalTZA :: "int \<Rightarrow> bool \<Rightarrow> int"

definition LocalTime :: "zone \<Rightarrow> int \<Rightarrow> int" where
  "LocalTime z t = t + LocalTZA z t True"

definition UTC :: "zone \<Rightarrow> int \<Rightarrow> int" where
  "UTC z t = t - LocalTZA z t False"

text \<open>\<^verbatim>\<open>getDate()\<close> and \<^verbatim>\<open>setDate(dt)\<close> work in local time; on an invalid date they give \<^verbatim>\<open>NaN\<close>.\<close>

definition getDate :: "zone \<Rightarrow> int option \<Rightarrow> int option" where
  "getDate z tv = (case tv of None \<Rightarrow> None | Some t \<Rightarrow> Some (DateFromTime (LocalTime z t)))"

definition setDate :: "zone \<Rightarrow> int option \<Rightarrow> int option \<Rightarrow> int option" where
  "setDate z tv dt =
     (case tv of None \<Rightarrow> None
      | Some t \<Rightarrow>
         (case dt of None \<Rightarrow> None
          | Some d \<Rightarrow>
             let lt = LocalTime z t;
                 newDate = MakeDate (MakeDay (YearFromTime lt) (MonthFromTime lt) d)
                             (TimeWithinDay lt)
             in TimeClip (UTC z newDate)))"

text \<open>\<^verbatim>\<open>setHours(0, 0, 0, 0)\<close>: the start of the local day.\<close>

definition setHours0 :: "zone \<Rightarrow> int option \<Rightarrow> int option" where
  "setHours0 z tv =
     (case tv of None \<Rightarrow> None
      | Some t \<Rightarrow> TimeClip (UTC z (MakeDate (Day (LocalTime z t)) (MakeTime 0 0 0 0))))"

text \<open>
  \<^verbatim>\<open>toISOString()\<close>: \<^verbatim>\<open>YYYY-MM-DDTHH:mm:ss.sssZ\<close> in UTC, the year with a sign and six
  digits outside 0 to 9999; a \<^verbatim>\<open>RangeError\<close> on an invalid date.
\<close>

datatype exn = RangeError

definition year_string :: "int \<Rightarrow> string" where
  "year_string y =
     (if 0 \<le> y \<and> y \<le> 9999 then padStart0 4 (String_int y)
      else (if y < 0 then CHR ''-'' else CHR ''+'') # padStart0 6 (String_int \<bar>y\<bar>))"

definition pad2 :: "int \<Rightarrow> string" where
  "pad2 i = padStart0 2 (String_int i)"

definition ISOString :: "int \<Rightarrow> string" where
  "ISOString t =
     year_string (YearFromTime t) @ ''-'' @ pad2 (MonthFromTime t + 1) @ ''-''
     @ pad2 (DateFromTime t) @ ''T'' @ pad2 (HourFromTime t) @ '':''
     @ pad2 (MinFromTime t) @ '':'' @ pad2 (SecFromTime t) @ ''.''
     @ padStart0 3 (String_int (msFromTime t)) @ ''Z''"

definition toISOString :: "int option \<Rightarrow> exn + string" where
  "toISOString tv = (case tv of None \<Rightarrow> Inl RangeError | Some t \<Rightarrow> Inr (ISOString t))"

text \<open>\<^verbatim>\<open>s.split('T')[0]\<close>: the part of \<open>s\<close> before the first \<^verbatim>\<open>T\<close>.\<close>

definition before_T :: "string \<Rightarrow> string" where
  "before_T s = takeWhile (\<lambda>c. c \<noteq> CHR ''T'') s"

text \<open>
  \<^verbatim>\<open>new Date(s)\<close> on the two spellings the form produces. A date input has the value
  \<^verbatim>\<open>YYYY-MM-DD\<close> (or is empty), and that form is read as UTC midnight. The daily check also
  parses \<^verbatim>\<open>YYYY-MM-DDTHH:mm\<close>, the date joined to the value of a time input; that form is
  read as local time. Any other text is an invalid date here.
\<close>

definition DaysInMonth :: "int \<Rightarrow> int \<Rightarrow> int" where
  "DaysInMonth y m =
     (if m = 1 then (if DaysInYear y = 366 then 29 else 28)
      else if m = 3 \<or> m = 5 \<or> m = 8 \<or> m = 10 then 30 else 31)"

definition parse_ymd :: "string \<Rightarrow> int option" where
  "parse_ymd s =
     (if length s = 10 \<and> s ! 4 = CHR ''-'' \<and> s ! 7 = CHR ''-'' then
        (case (decimal (take 4 s), decimal (take 2 (drop 5 s)), decimal (drop 8 s)) of
           (Some y, Some m, Some d) \<Rightarrow>
             if 1 \<le> m \<and> m \<le> 12 \<and> 1 \<le> d \<and> d \<le> DaysInMonth y (m - 1)
             then Some (MakeDay y (m - 1) d) else None
         | _ \<Rightarrow> None)
      else None)"

definition parse_hm :: "string \<Rightarrow> int option" where
  "parse_hm s =
     (if length s = 5 \<and> s ! 2 = CHR '':'' then
        (case (decimal (take 2 s), decimal (drop 3 s)) of
           (Some h, Some m) \<Rightarrow>
             if h \<le> 23 \<and> m \<le> 59 then Some (MakeTime h m 0 0) else None
         | _ \<Rightarrow> None)
      else None)"

definition Date_new :: "zone \<Rightarrow> string \<Rightarrow> int option" where
  "Date_new z s =
     (if length s = 10 then
        (case parse_ymd s of None \<Rightarrow> None | Some d \<Rightarrow> TimeClip (MakeDate d 0))
      else if length s = 16 \<and> s ! 10 = CHR ''T'' then
        (case (parse_ymd (take 10 s), parse_hm (drop 11 s)) of
           (Some d, Some tm) \<Rightarrow> TimeClip (UTC z (MakeDate d tm))
         | _ \<Rightarrow> None)
      else None)"

subsection \<open>Values and objects\<close>

text \<open>
  A payload is an object: its properties in insertion order. Setting a property that exists
  replaces its value in place, a new one goes to the end (\<^const>\<open>AList.update\<close>); the spread
  \<^verbatim>\<open>{...p, k: v}\<close> is \<open>AList.update k v p\<close>.
\<close>

datatype jsval = JUndefined | JNull | JBool bool | JNum rat | JStr string
  | JArr "jsval list" | JObj "(string \<times> jsval) list"

type_synonym obj = "(string \<times> jsval) list"

definition property :: "obj \<Rightarrow> string \<Rightarrow> jsval" where
  "property ob k = (case map_of ob k of None \<Rightarrow> JUndefined | Some v \<Rightarrow> v)"

fun truthy :: "jsval \<Rightarrow> bool" where
  "truthy JUndefined = False"
| "truthy JNull = False"
| "truthy (JBool b) = b"
| "truthy (JNum n) = (n \<noteq> 0)"
| "truthy (JStr s) = (s \<noteq> [])"
| "truthy (JArr xs) = True"
| "truthy (JObj ps) = True"

text \<open>\<^verbatim>\<open>a || b\<close>.\<close>

definition or_else :: "jsval \<Rightarrow> jsval \<Rightarrow> jsval" where
  "or_else a b = (if truthy a then a else b)"

subsection \<open>The world outside the component\<close>

text \<open>
  What the hosted database, the form relay and the browser storage answer is not decided by
  the component: it is the environment. \<open>supabase_insert env table row\<close> is the outcome of
  \<^verbatim>\<open>await supabase.from(table).insert([row]).select()\<close>: the row is stored, or an error
  object comes back, or the call throws. \<open>relay_fetch env body\<close> tells whether the promise
  of \<^verbatim>\<open>fetch\<close> resolves (the response is opaque and is not read) or rejects.
  \<open>storage_setItem env v\<close> tells whether \<^verbatim>\<open>localStorage.setItem\<close> takes the text of \<open>v\<close>
  or throws. \<open>clock env\<close> is the time value the clock shows during the submission.
\<close>

record PostgrestError =
  err_message :: string
  err_code :: string
  err_details :: "string option"

datatype insert_outcome = Inserted | Rejected PostgrestError | Threw

record Env =
  VITE_SUPABASE_URL :: "string option"
  VITE_SUPABASE_ANON_KEY :: "string option"
  supabase_insert :: "string \<Rightarrow> obj \<Rightarrow> insert_outcome"
  relay_fetch :: "jsval \<Rightarrow> bool"
  storage_setItem :: "jsval \<Rightarrow> bool"
  clock :: int

text \<open>\<^verbatim>\<open>!import.meta.env.X\<close>: the variable is undefined or empty.\<close>

definition unset :: "string option \<Rightarrow> bool" where
  "unset v = (case v of None \<Rightarrow> True | Some s \<Rightarrow> s = [])"

text \<open>
  The slot \<^verbatim>\<open>pendingBookings\<close> of \<^verbatim>\<open>localStorage\<close>: no text (or the empty text), the
  text of a value, or a text that \<^verbatim>\<open>JSON.parse\<close> rejects.
\<close>

datatype stored = NoItem | Item jsval | BadItem

datatype BookingStep = form | thank_you

datatype tier = RemoteStore | FormRelay | LocalStorage

text \<open>
  The trace of a submission: \<open>Attempt t\<close> when the function of tier \<open>t\<close> is entered, and
  the requests that leave the component.
\<close>

datatype effect = Attempt tier | InsertRequest string obj | FetchRequest jsval
  | SetItemRequest jsval

record World =
  pendingBookings :: stored
  effects :: "effect list"
  alerts :: "string list"
  currentStep :: BookingStep
  isSubmitting :: bool

definition emit :: "effect \<Rightarrow> World \<Rightarrow> World" where
  "emit e w = w\<lparr>effects := effects w @ [e]\<rparr>"

definition alert :: "string \<Rightarrow> World \<Rightarrow> World" where
  "alert m w = w\<lparr>alerts := alerts w @ [m]\<rparr>"

subsection \<open>The configuration module\<close>



subsection \<open>The persistence functions\<close>

text \<open>
  Each of them catches whatever is thrown inside it and answers \<^verbatim>\<open>false\<close>; the result is
  the answer and the world after the call.
\<close>

definition optional_field :: "obj \<Rightarrow> string \<Rightarrow> bool \<Rightarrow> obj" where
  "optional_field payload k present = (if present then [(k, property payload k)] else [])"

definition supabase_alert :: "string \<Rightarrow> PostgrestError \<Rightarrow> string" where
  "supabase_alert title e =
     title @ err_message e @ [CHR 0x0A] @ ''Code: '' @ err_code e @ [CHR 0x0A] @ ''Details: ''
     @ (case err_details e of None \<Rightarrow> ''None'' | Some d \<Rightarrow> if d = [] then ''None'' else d)"

text \<open>The row \<^verbatim>\<open>bookingPayload\<close> that \<^verbatim>\<open>submitToSupabase\<close> builds from its argument.\<close>

definition bookingPayload :: "obj \<Rightarrow> obj" where
  "bookingPayload payload =
     [(''name'', property payload ''name''),
      (''contact'', property payload ''contact''),
      (''address'', property payload ''address''),
      (''category'', property payload ''category''),
      (''model'', property payload ''model''),
      (''price_per_day'', property payload ''price_per_day''),
      (''status'', or_else (property payload ''status'') (JStr ''pending'')),
      (''rental_type'', or_else (property payload ''rental_type'') (JStr ''daily''))]
     @ optional_field payload ''days'' (property payload ''days'' \<noteq> JUndefined)
     @ optional_field payload ''total_price'' (property payload ''total_price'' \<noteq> JUndefined)
     @ optional_field payload ''pickup_date'' (truthy (property payload ''pickup_date''))
     @ optional_field payload ''return_date'' (truthy (property payload ''return_date''))
     @ optional_field payload ''pickup_time'' (truthy (property payload ''pickup_time''))
     @ optional_field payload ''return_time'' (truthy (property payload ''return_time''))"

definition submitToSupabase :: "Env \<Rightarrow> obj \<Rightarrow> World \<Rightarrow> bool \<times> World" where
  "submitToSupabase env payload w =
     (let w1 = emit (Attempt RemoteStore) w
      in if unset (VITE_SUPABASE_URL env) \<or> unset (VITE_SUPABASE_ANON_KEY env)
         then (False, w1)
         else
           let w2 = emit (InsertRequest ''bookings'' (bookingPayload payload)) w1
           in case supabase_insert env ''bookings'' (bookingPayload payload) of
                Threw \<Rightarrow> (False, w2)
              | Rejected e \<Rightarrow> (False, alert (supabase_alert ''Supabase Error: '' e) w2)
              | Inserted \<Rightarrow> (True, w2))"

definition submitWeeklyBookingToSupabase :: "Env \<Rightarrow> obj \<Rightarrow> World \<Rightarrow> bool \<times> World" where
  "submitWeeklyBookingToSupabase env payload w =
     (let w1 = emit (Attempt RemoteStore) w
      in if unset (VITE_SUPABASE_URL env) \<or> unset (VITE_SUPABASE_ANON_KEY env)
         then (False, w1)
         else
           let w2 = emit (InsertRequest ''weekly_bookings'' payload) w1
           in case supabase_insert env ''weekly_bookings'' payload of
                Threw \<Rightarrow> (False, w2)
              | Rejected e \<Rightarrow>
                  (False, alert (supabase_alert ''Weekly Booking Supabase Error: '' e) w2)
              | Inserted \<Rightarrow> (True, w2))"

definition submitToGoogleForm :: "Env \<Rightarrow> obj \<Rightarrow> World \<Rightarrow> bool \<times> World" where
  "submitToGoogleForm env payload w =
     (let w1 = emit (FetchRequest (JObj payload)) (emit (Attempt FormRelay) w)
      in if relay_fetch env (JObj payload) then (True, w1) else (False, w1))"

text \<open>
  \<^verbatim>\<open>JSON.parse(localStorage.getItem('pendingBookings') || '[]')\<close>: \<open>None\<close> is the
  \<^verbatim>\<open>SyntaxError\<close>.
\<close>

definition existingBookings :: "stored \<Rightarrow> jsval option" where
  "existingBookings st =
     (case st of NoItem \<Rightarrow> Some (JArr []) | Item v \<Rightarrow> Some v | BadItem \<Rightarrow> None)"

definition bookingWithTimestamp :: "Env \<Rightarrow> obj \<Rightarrow> obj" where
  "bookingWithTimestamp env payload =
     AList.update ''id'' (JStr (''local-'' @ String_int (clock env)))
       (AList.update ''savedAt'' (JStr (ISOString (clock env))) payload)"

definition storeBookingLocally :: "Env \<Rightarrow> obj \<Rightarrow> World \<Rightarrow> bool \<times> World" where
  "storeBookingLocally env payload w =
     (let w1 = emit (Attempt LocalStorage) w
      in case existingBookings (pendingBookings w1) of
           None \<Rightarrow> (False, w1)
         | Some (JArr xs) \<Rightarrow>
             let updated = JArr (xs @ [JObj (bookingWithTimestamp env payload)]);
                 w2 = emit (SetItemRequest updated) w1
             in if storage_setItem env updated
                then (True, w2\<lparr>pendingBookings := Item updated\<rparr>)
                else (False, w2)
         | Some _ \<Rightarrow> (False, w1))"

subsection \<open>The submission orchestrator\<close>

definition weeklyPayload :: "BookingData \<Rightarrow> FormData \<Rightarrow> PriceQuote \<Rightarrow> obj" where
  "weeklyPayload bd formData q =
     [(''name'', JStr (trim (name formData))),
      (''contact'', JStr (strip_spaces (contact formData))),
      (''address'', JStr (trim (address formData))),
      (''category'', JStr (category bd)),
      (''model'', JStr (model bd)),
      (''price_per_day'', JNum (quotePricePerDay q)),
      (''weeks'', JNum (of_int (weeks formData))),
      (''total_weeks_price'', JNum (totalPrice q)),
      (''weekly_discount_percent'', JNum 35),
      (''original_price'', JNum (originalPrice q)),
      (''savings'', JNum (savings q)),
      (''status'', JStr ''pending''),
      (''pickup_date'', JStr (pickupDate formData)),
      (''return_date'', JStr (returnDate formData))]"

definition supabasePayload :: "BookingData \<Rightarrow> FormData \<Rightarrow> PriceQuote \<Rightarrow> obj" where
  "supabasePayload bd formData q =
     [(''name'', JStr (trim (name formData))),
      (''contact'', JStr (strip_spaces (contact formData))),
      (''address'', JStr (trim (address formData))),
      (''category'', JStr (category bd)),
      (''model'', JStr (model bd)),
      (''price_per_day'', JNum (quotePricePerDay q)),
      (''days'', JNum (of_int (days formData))),
      (''total_price'', JNum (totalPrice q)),
      (''status'', JStr ''pending''),
      (''rental_type'', JStr ''daily''),
      (''pickup_date'', JStr (pickupDate formData)),
      (''return_date'', JStr (returnDate formData)),
      (''pickup_time'', JStr (pickupTime formData)),
      (''return_time'', JStr (returnTime formData))]"

definition commonPayload :: "Env \<Rightarrow> BookingData \<Rightarrow> FormData \<Rightarrow> PriceQuote \<Rightarrow> obj" where
  "commonPayload env bd formData q =
     [(''name'', JStr (trim (name formData))),
      (''contact'', JStr (strip_spaces (contact formData))),
      (''address'', JStr (trim (address formData))),
      (''category'', JStr (category bd)),
      (''model'', JStr (model bd)),
      (''pricePerDay'', JNum (quotePricePerDay q)),
      (''days'', JNum (of_int (days formData))),
      (''totalPrice'', JNum (totalPrice q)),
      (''timestamp'', JStr (ISOString (clock env)))]"

definition failure_message :: string where
  "failure_message =
     ''There was an error submitting your booking. Please contact us directly with your booking details.''"

text \<open>
  \<^verbatim>\<open>submitBooking\<close>. Nothing in the body of its \<^verbatim>\<open>try\<close> throws: the payloads are built
  from strings and numbers, and each persistence function catches its own exceptions. The
  \<^verbatim>\<open>catch\<close> block is therefore never entered and has no branch here; \<^verbatim>\<open>finally\<close> clears
  the submitting flag.
\<close>

definition submitBooking :: "Env \<Rightarrow> BookingData option \<Rightarrow> FormData \<Rightarrow> World \<Rightarrow> World" where
  "submitBooking env bookingData formData w =
     (case bookingData of
        None \<Rightarrow> w
      | Some bd \<Rightarrow>
          let w0 = w\<lparr>isSubmitting := True\<rparr>;
              q = calculatePrice bookingData formData;
              (successfulSubmission, w3) =
                (if bookingType formData = weekly then
                   let (supabaseSuccess, w1) =
                         submitWeeklyBookingToSupabase env (weeklyPayload bd formData q) w0
                   in if supabaseSuccess then (True, w1)
                      else storeBookingLocally env
                             (AList.update ''timestamp'' (JStr (ISOString (clock env)))
                                (AList.update ''bookingType'' (JStr ''weekly'')
                                   (weeklyPayload bd formData q))) w1
                 else
                   let (supabaseSuccess, w1) =
                         submitToSupabase env (supabasePayload bd formData q) w0
                   in if supabaseSuccess then (True, w1)
                      else
                        let (googleFormSuccess, w2) =
                              submitToGoogleForm env (commonPayload env bd formData q) w1
                        in if googleFormSuccess then (True, w2)
                           else storeBookingLocally env (commonPayload env bd formData q) w2);
              w4 = (if successfulSubmission then w3\<lparr>currentStep := thank_you\<rparr>
                    else alert failure_message w3)
          in w4\<lparr>isSubmitting := False\<rparr>)"

subsection \<open>The module of the component\<close>


subsection \<open>Reading a trace\<close>

text \<open>The tiers entered, in order; and what a run added to the trace.\<close>

fun attempts :: "effect list \<Rightarrow> tier list" where
  "attempts [] = []"
| "attempts (Attempt t # es) = t # attempts es"
| "attempts (e # es) = attempts es"

fun is_insert :: "effect \<Rightarrow> bool" where
  "is_insert (InsertRequest table row) = True"
| "is_insert e = False"

fun is_fetch :: "effect \<Rightarrow> bool" where
  "is_fetch (FetchRequest body) = True"
| "is_fetch e = False"

definition since :: "World \<Rightarrow> World \<Rightarrow> effect list" where
  "since w w' = drop (length (effects w)) (effects w')"

definition alerts_since :: "World \<Rightarrow> World \<Rightarrow> string list" where
  "alerts_since w w' = drop (length (alerts w)) (alerts w')"

subsection \<open>Regular expressions\<close>

text \<open>
  The two patterns of the validator use character classes, sequence, an optional group,
  a counted repetition and \<^verbatim>\<open>+\<close>, all between \<^verbatim>\<open>^\<close> and \<^verbatim>\<open>$\<close>. \<^verbatim>\<open>RegExp.prototype.test\<close> on
  such a pattern tells whether the whole string is in the language of the expression; it is
  computed here by taking the derivative of the expression by each character in turn.
\<close>

datatype regex = Never | Empty | Class "char \<Rightarrow> bool" | Or regex regex | Then regex regex
  | Many regex

fun nullable :: "regex \<Rightarrow> bool" where
  "nullable Never = False"
| "nullable Empty = True"
| "nullable (Class p) = False"
| "nullable (Or a b) = (nullable a \<or> nullable b)"
| "nullable (Then a b) = (nullable a \<and> nullable b)"
| "nullable (Many a) = True"

fun deriv :: "char \<Rightarrow> regex \<Rightarrow> regex" where
  "deriv c Never = Never"
| "deriv c Empty = Never"
| "deriv c (Class p) = (if p c then Empty else Never)"
| "deriv c (Or a b) = Or (deriv c a) (deriv c b)"
| "deriv c (Then a b) =
     (if nullable a then Or (Then (deriv c a) b) (deriv c b) else Then (deriv c a) b)"
| "deriv c (Many a) = Then (deriv c a) (Many a)"

definition RegExp_test :: "regex \<Rightarrow> string \<Rightarrow> bool" where
  "RegExp_test r s = nullable (foldl (\<lambda>r c. deriv c r) r s)"

text \<open>\<^verbatim>\<open>r?\<close>, \<^verbatim>\<open>r+\<close>, \<^verbatim>\<open>r{n}\<close>, a literal text, and the classes \<^verbatim>\<open>[a-b]\<close>, \<^verbatim>\<open>\d\<close>, \<^verbatim>\<open>\s\<close>.\<close>

definition Opt :: "regex \<Rightarrow> regex" where
  "Opt r = Or Empty r"

definition Some_of :: "regex \<Rightarrow> regex" where
  "Some_of r = Then r (Many r)"

fun Exactly :: "nat \<Rightarrow> regex \<Rightarrow> regex" where
  "Exactly 0 r = Empty"
| "Exactly (Suc n) r = Then r (Exactly n r)"

fun Literal :: "string \<Rightarrow> regex" where
  "Literal [] = Empty"
| "Literal (c # cs) = Then (Class (\<lambda>x. x = c)) (Literal cs)"

definition between :: "char \<Rightarrow> char \<Rightarrow> char \<Rightarrow> bool" where
  "between lo hi c = ((of_char lo :: nat) \<le> of_char c \<and> (of_char c :: nat) \<le> of_char hi)"

text \<open>\<^verbatim>\<open>/^(\+91)?[6-9]\d{9}$/\<close> and \<^verbatim>\<open>/^[a-zA-Z\s]+$/\<close>.\<close>

definition contact_pattern :: regex where
  "contact_pattern =
     Then (Opt (Literal ''+91''))
       (Then (Class (between CHR ''6'' CHR ''9'')) (Exactly 9 (Class is_digit)))"

definition name_pattern :: regex where
  "name_pattern =
     Some_of (Class (\<lambda>c. between CHR ''a'' CHR ''z'' c \<or> between CHR ''A'' CHR ''Z'' c
                          \<or> is_space c))"

subsection \<open>The validator\<close>

text \<open>\<^verbatim>\<open>Math.ceil\<close>, and the comparisons of two dates, which are false on an invalid date.\<close>

definition Math_ceil :: "rat \<Rightarrow> int" where
  "Math_ceil x = \<lceil>x\<rceil>"

definition date_less :: "int option \<Rightarrow> int option \<Rightarrow> bool" where
  "date_less a b = (case (a, b) of (Some x, Some y) \<Rightarrow> x < y | _ \<Rightarrow> False)"

definition date_less_eq :: "int option \<Rightarrow> int option \<Rightarrow> bool" where
  "date_less_eq a b = (case (a, b) of (Some x, Some y) \<Rightarrow> x \<le> y | _ \<Rightarrow> False)"

text \<open>
  \<^verbatim>\<open>Math.ceil((returnDate.getTime() - pickupDate.getTime()) / (1000 * 60 * 60 * 24))\<close>;
  \<open>None\<close> is \<^verbatim>\<open>NaN\<close>.
\<close>

definition daysDifference :: "int option \<Rightarrow> int option \<Rightarrow> int option" where
  "daysDifference return pickup =
     (case (return, pickup) of
        (Some r, Some p) \<Rightarrow> Some (Math_ceil (of_int (r - p) / of_int (1000 * 60 * 60 * 24)))
      | _ \<Rightarrow> None)"

record FormErrors =
  name_error :: "string option"
  contact_error :: "string option"
  address_error :: "string option"
  days_error :: "string option"
  weeks_error :: "string option"
  pickupDate_error :: "string option"
  returnDate_error :: "string option"
  pickupTime_error :: "string option"
  returnTime_error :: "string option"

definition no_errors :: FormErrors where
  "no_errors = \<lparr>name_error = None, contact_error = None, address_error = None,
     days_error = None, weeks_error = None, pickupDate_error = None, returnDate_error = None,
     pickupTime_error = None, returnTime_error = None\<rparr>"

text \<open>
  \<^verbatim>\<open>validateForm\<close>, block by block; each block takes the errors found so far and may set
  (or overwrite) some. \<open>z\<close> is the time zone of the host and \<open>now\<close> the time of the call
  (\<^verbatim>\<open>new Date()\<close>). The result is the object \<^verbatim>\<open>newErrors\<close>; the function itself answers
  whether it has no key.
\<close>

definition check_name :: "FormData \<Rightarrow> FormErrors \<Rightarrow> FormErrors" where
  "check_name formData e =
     (if trim (name formData) = [] then e\<lparr>name_error := Some ''Full name is required''\<rparr>
      else if length (trim (name formData)) < 2
      then e\<lparr>name_error := Some ''Name must be at least 2 characters''\<rparr>
      else if length (trim (name formData)) > 60
      then e\<lparr>name_error := Some ''Name must be less than 60 characters''\<rparr>
      else if \<not> RegExp_test name_pattern (trim (name formData))
      then e\<lparr>name_error := Some ''Name can only contain letters and spaces''\<rparr>
      else e)"

definition check_contact :: "FormData \<Rightarrow> FormErrors \<Rightarrow> FormErrors" where
  "check_contact formData e =
     (let contactClean = strip_spaces (contact formData)
      in if contactClean = [] then e\<lparr>contact_error := Some ''Contact number is required''\<rparr>
         else if \<not> RegExp_test contact_pattern contactClean
         then e\<lparr>contact_error := Some ''Enter a valid 10-digit Indian mobile number''\<rparr>
         else e)"

definition check_address :: "FormData \<Rightarrow> FormErrors \<Rightarrow> FormErrors" where
  "check_address formData e =
     (if trim (address formData) = [] then e\<lparr>address_error := Some ''Pickup address is required''\<rparr>
      else if length (trim (address formData)) < 10
      then e\<lparr>address_error := Some ''Address must be at least 10 characters''\<rparr>
      else e)"

definition check_days :: "FormData \<Rightarrow> FormErrors \<Rightarrow> FormErrors" where
  "check_days formData e =
     (if bookingType formData = daily then
        (if days formData = 0 \<or> days formData < 1
         then e\<lparr>days_error := Some ''Number of days must be at least 1''\<rparr>
         else if days formData > 30
         then e\<lparr>days_error := Some ''Maximum rental period is 30 days''\<rparr>
         else e)
      else e)"

definition approximately_message :: "int \<Rightarrow> int \<Rightarrow> string" where
  "approximately_message expectedDays w =
     ''Return date should be approximately '' @ String_int expectedDays
     @ '' days after pickup date for '' @ String_int w @ '' week''
     @ (if w > 1 then ''s'' else [])"

definition check_weekly :: "zone \<Rightarrow> int \<Rightarrow> FormData \<Rightarrow> FormErrors \<Rightarrow> FormErrors" where
  "check_weekly z now formData e =
     (if bookingType formData = weekly then
        let e1 = (if weeks formData = 0 \<or> weeks formData < 1
                  then e\<lparr>weeks_error := Some ''Number of weeks must be at least 1''\<rparr>
                  else if weeks formData > 12
                  then e\<lparr>weeks_error := Some ''Maximum weekly rental period is 12 weeks''\<rparr>
                  else e);
            e2 = (if pickupDate formData = []
                  then e1\<lparr>pickupDate_error := Some ''Pickup date is required for weekly bookings''\<rparr>
                  else if date_less (Date_new z (pickupDate formData)) (setHours0 z (Some now))
                  then e1\<lparr>pickupDate_error := Some ''Pickup date cannot be in the past''\<rparr>
                  else e1)
        in if returnDate formData = []
           then e2\<lparr>returnDate_error := Some ''Return date is required for weekly bookings''\<rparr>
           else if pickupDate formData \<noteq> [] then
             let pickup = Date_new z (pickupDate formData);
                 return = Date_new z (returnDate formData);
                 e3 = (if date_less_eq return pickup
                       then e2\<lparr>returnDate_error := Some ''Return date must be after pickup date''\<rparr>
                       else e2);
                 expectedDays = weeks formData * 7
             in (case daysDifference return pickup of
                   None \<Rightarrow> e3
                 | Some d \<Rightarrow>
                     if \<bar>d - expectedDays\<bar> > 2
                     then e3\<lparr>returnDate_error :=
                             Some (approximately_message expectedDays (weeks formData))\<rparr>
                     else e3)
           else e2
      else e)"

definition check_daily :: "zone \<Rightarrow> int \<Rightarrow> FormData \<Rightarrow> FormErrors \<Rightarrow> FormErrors" where
  "check_daily z now formData e =
     (if bookingType formData = daily then
        let e1 = (if pickupDate formData = []
                  then e\<lparr>pickupDate_error := Some ''Pickup date is required''\<rparr>
                  else if date_less (Date_new z (pickupDate formData)) (setHours0 z (Some now))
                  then e\<lparr>pickupDate_error := Some ''Pickup date cannot be in the past''\<rparr>
                  else e);
            e2 = (if returnDate formData = [] \<and> pickupDate formData \<noteq> [] \<and> days formData \<noteq> 0
                  then e1\<lparr>returnDate_error :=
                    Some ''Return date calculation error - please check pickup date and days''\<rparr>
                  else if pickupDate formData \<noteq> [] \<and> returnDate formData \<noteq> [] then
                    (if date_less (Date_new z (returnDate formData))
                          (Date_new z (pickupDate formData))
                     then e1\<lparr>returnDate_error := Some ''Return date cannot be before pickup date''\<rparr>
                     else e1)
                  else e1);
            e3 = (if pickupTime formData = []
                  then e2\<lparr>pickupTime_error := Some ''Pickup time is required''\<rparr> else e2);
            e4 = (if returnTime formData = []
                  then e3\<lparr>returnTime_error := Some ''Return time is required''\<rparr> else e3)
        in if pickupDate formData \<noteq> [] \<and> returnDate formData \<noteq> []
              \<and> pickupTime formData \<noteq> [] \<and> returnTime formData \<noteq> []
              \<and> date_less_eq (Date_new z (returnDate formData @ ''T'' @ returnTime formData))
                    (Date_new z (pickupDate formData @ ''T'' @ pickupTime formData))
           then e4\<lparr>returnTime_error := Some ''Return time must be after pickup time''\<rparr>
           else e4
      else e)"

definition validateForm :: "zone \<Rightarrow> int \<Rightarrow> FormData \<Rightarrow> FormErrors" where
  "validateForm z now formData =
     check_daily z now formData
       (check_weekly z now formData
          (check_days formData
             (check_address formData
                (check_contact formData
                   (check_name formData no_errors)))))"

subsection \<open>The contact rule in the words of the specification\<close>

text \<open>
  A ten-digit mobile number whose first digit is 6, 7, 8 or 9; and the same, optionally
  after the country code \<open>+91\<close>.
\<close>

definition mobile_number :: "string \<Rightarrow> bool" where
  "mobile_number s =
     (length s = 10 \<and> (\<forall>c \<in> set s. c \<in> set ''0123456789'') \<and> hd s \<in> set ''6789'')"

definition valid_contact :: "string \<Rightarrow> bool" where
  "valid_contact s = (mobile_number s \<or> (\<exists>t. s = ''+91'' @ t \<and> mobile_number t))"

subsection \<open>The language of a regular expression\<close>

text \<open>The strings an expression stands for, defined in the usual way.\<close>

inductive_set star :: "string set \<Rightarrow> string set" for A :: "string set" where
  star_nil: "[] \<in> star A"
| star_step: "u \<in> A \<Longrightarrow> v \<in> star A \<Longrightarrow> u @ v \<in> star A"

fun lang :: "regex \<Rightarrow> string set" where
  "lang Never = {}"
| "lang Empty = {[]}"
| "lang (Class p) = {[c] | c. p c}"
| "lang (Or a b) = lang a \<union> lang b"
| "lang (Then a b) = {u @ v | u v. u \<in> lang a \<and> v \<in> lang b}"
| "lang (Many a) = star (lang a)"

subsection \<open>The input handler\<close>

text \<open>
  \<^verbatim>\<open>parseInt(s)\<close>: leading white space and a sign are skipped; after \<^verbatim>\<open>0x\<close> or \<^verbatim>\<open>0X\<close> the
  digits are hexadecimal, otherwise decimal; the longest run of digits is read, and there is
  no number (\<^verbatim>\<open>NaN\<close>, here \<open>None\<close>) when it is empty.
\<close>

definition hex_val :: "char \<Rightarrow> int option" where
  "hex_val c =
     (if is_digit c then Some (of_char c - 48)
      else if between CHR ''a'' CHR ''f'' c then Some (of_char c - 87)
      else if between CHR ''A'' CHR ''F'' c then Some (of_char c - 55)
      else None)"

definition number_in :: "int \<Rightarrow> string \<Rightarrow> int option" where
  "number_in radix s =
     (let ds = takeWhile (\<lambda>c. case hex_val c of None \<Rightarrow> False | Some v \<Rightarrow> v < radix) s
      in if ds = [] then None
         else Some (foldl (\<lambda>a c. radix * a + the (hex_val c)) 0 ds))"

definition parseInt :: "string \<Rightarrow> int option" where
  "parseInt s =
     (let t = dropWhile is_space s;
          negative = startsWith t ''-'';
          u = (if startsWith t ''-'' \<or> startsWith t ''+'' then tl t else t);
          n = (if startsWith u ''0x'' \<or> startsWith u ''0X'' then number_in 16 (drop 2 u)
               else number_in 10 u)
      in if negative then map_option uminus n else n)"

text \<open>
  The second argument of \<^verbatim>\<open>handleInputChange\<close> is a string or a number. For the two
  duration fields, \<^verbatim>\<open>processedValue\<close> is the number itself, or
  \<^verbatim>\<open>parseInt(value) || 1\<close> for a string.
\<close>

datatype input = Text string | Number int

definition processedValue :: "input \<Rightarrow> int" where
  "processedValue v =
     (case v of
        Number n \<Rightarrow> n
      | Text s \<Rightarrow> (case parseInt s of None \<Rightarrow> 1 | Some n \<Rightarrow> if n = 0 then 1 else n))"

text \<open>
  A call \<^verbatim>\<open>handleInputChange(field, value)\<close>, with the value of the type of the field: the
  calls the component makes.
\<close>

datatype change = Set_name string | Set_contact string | Set_address string
  | Set_days input | Set_bookingType bookingType | Set_weeks input
  | Set_pickupDate string | Set_returnDate string | Set_pickupTime string
  | Set_returnTime string

text \<open>\<^verbatim>\<open>{ ...prev, [field]: processedValue }\<close>.\<close>

fun assign :: "change \<Rightarrow> FormData \<Rightarrow> FormData" where
  "assign (Set_name v) prev = prev\<lparr>name := v\<rparr>"
| "assign (Set_contact v) prev = prev\<lparr>contact := v\<rparr>"
| "assign (Set_address v) prev = prev\<lparr>address := v\<rparr>"
| "assign (Set_days v) prev = prev\<lparr>days := processedValue v\<rparr>"
| "assign (Set_bookingType v) prev = prev\<lparr>bookingType := v\<rparr>"
| "assign (Set_weeks v) prev = prev\<lparr>weeks := processedValue v\<rparr>"
| "assign (Set_pickupDate v) prev = prev\<lparr>pickupDate := v\<rparr>"
| "assign (Set_returnDate v) prev = prev\<lparr>returnDate := v\<rparr>"
| "assign (Set_pickupTime v) prev = prev\<lparr>pickupTime := v\<rparr>"
| "assign (Set_returnTime v) prev = prev\<lparr>returnTime := v\<rparr>"

fun sets_weeks :: "change \<Rightarrow> bool" where
  "sets_weeks (Set_weeks v) = True"
| "sets_weeks c = False"

fun sets_days :: "change \<Rightarrow> bool" where
  "sets_days (Set_days v) = True"
| "sets_days c = False"

fun sets_pickupDate :: "change \<Rightarrow> bool" where
  "sets_pickupDate (Set_pickupDate v) = True"
| "sets_pickupDate c = False"

text \<open>
  The four lines that compute the return date:
  \<^verbatim>\<open>const pickupDate = new Date(s); const returnDate = new Date(pickupDate);\<close>
  \<^verbatim>\<open>returnDate.setDate(returnDate.getDate() + n);\<close>
  \<^verbatim>\<open>returnDate.toISOString().split('T')[0]\<close>, which throws on an invalid date.
\<close>

definition date_after :: "zone \<Rightarrow> string \<Rightarrow> int \<Rightarrow> exn + string" where
  "date_after z s n =
     (let pickup = Date_new z s;
          return = setDate z pickup (map_option (\<lambda>d. d + n) (getDate z pickup))
      in case toISOString return of Inl e \<Rightarrow> Inl e | Inr text \<Rightarrow> Inr (before_T text))"

text \<open>
  The function given to \<^verbatim>\<open>setFormData\<close>: the new form data, or the exception that leaves
  the updater.
\<close>

definition handleInputChange :: "zone \<Rightarrow> change \<Rightarrow> FormData \<Rightarrow> exn + FormData" where
  "handleInputChange z c prev =
     (let newData = assign c prev;
          afterWeekly =
            (if (sets_weeks c \<or> (sets_pickupDate c \<and> bookingType newData = weekly))
                \<and> bookingType newData = weekly \<and> pickupDate newData \<noteq> []
                \<and> weeks newData \<noteq> 0
             then (case date_after z (pickupDate newData) (weeks newData * 7) of
                     Inl e \<Rightarrow> Inl e | Inr d \<Rightarrow> Inr (newData\<lparr>returnDate := d\<rparr>))
             else Inr newData)
      in case afterWeekly of
           Inl e \<Rightarrow> Inl e
         | Inr newData' \<Rightarrow>
             if (sets_days c \<or> (sets_pickupDate c \<and> bookingType newData' = daily))
                \<and> bookingType newData' = daily \<and> pickupDate newData' \<noteq> []
                \<and> days newData' \<noteq> 0
             then (case date_after z (pickupDate newData') (days newData') of
                     Inl e \<Rightarrow> Inl e | Inr d \<Rightarrow> Inr (newData'\<lparr>returnDate := d\<rparr>))
             else Inr newData')"

text \<open>
  The error of the field is cleared when the field changes (the booking type has no error
  of its own).
\<close>

fun clear_error :: "change \<Rightarrow> FormErrors \<Rightarrow> FormErrors" where
  "clear_error (Set_name v) e = e\<lparr>name_error := None\<rparr>"
| "clear_error (Set_contact v) e = e\<lparr>contact_error := None\<rparr>"
| "clear_error (Set_address v) e = e\<lparr>address_error := None\<rparr>"
| "clear_error (Set_days v) e = e\<lparr>days_error := None\<rparr>"
| "clear_error (Set_bookingType v) e = e"
| "clear_error (Set_weeks v) e = e\<lparr>weeks_error := None\<rparr>"
| "clear_error (Set_pickupDate v) e = e\<lparr>pickupDate_error := None\<rparr>"
| "clear_error (Set_returnDate v) e = e\<lparr>returnDate_error := None\<rparr>"
| "clear_error (Set_pickupTime v) e = e\<lparr>pickupTime_error := None\<rparr>"
| "clear_error (Set_returnTime v) e = e\<lparr>returnTime_error := None\<rparr>"

subsection \<open>Example inputs\<close>

definition pulsar :: BookingData where
  "pulsar = \<lparr>category = ''Bike'', model = ''Bajaj Pulsar 150'', pricePerDay = 550\<rparr>"

definition classic :: BookingData where
  "classic = \<lparr>category = ''Bike'', model = ''Royal Enfield Classic 350'', pricePerDay = 550\<rparr>"

definition initialForm :: FormData where
  "initialForm = \<lparr>name = [], contact = [], address = [], days = 1, bookingType = daily,
     weeks = 1, pickupDate = [], returnDate = [], pickupTime = ''09:00'',
     returnTime = ''18:00''\<rparr>"

text \<open>
  Four environments: one where every service answers; one where the database call throws
  and the relay is unreachable; one where, besides, the storage is full; and one like the
  second but without the address of the database. The clock shows 2025-01-15T00:00:00.000Z.
\<close>

definition env_online :: Env where
  "env_online = \<lparr>VITE_SUPABASE_URL = Some ''https://db.example.co'',
     VITE_SUPABASE_ANON_KEY = Some ''anon-key'', supabase_insert = (\<lambda>table row. Inserted),
     relay_fetch = (\<lambda>body. True), storage_setItem = (\<lambda>v. True), clock = 1736899200000\<rparr>"

definition env_offline :: Env where
  "env_offline = env_online\<lparr>supabase_insert := (\<lambda>table row. Threw),
     relay_fetch := (\<lambda>body. False)\<rparr>"

definition env_cut_off :: Env where
  "env_cut_off = env_offline\<lparr>storage_setItem := (\<lambda>v. False)\<rparr>"

definition env_unconfigured :: Env where
  "env_unconfigured = env_offline\<lparr>VITE_SUPABASE_URL := None\<rparr>"

definition world0 :: World where
  "world0 = \<lparr>pendingBookings = NoItem, effects = [], alerts = [], currentStep = form,
     isSubmitting = False\<rparr>"

definition filledForm :: FormData where
  "filledForm = \<lparr>name = ''Asha Rao'', contact = ''9876543210'',
     address = ''12 Lake Road, Pune'', days = 1, bookingType = daily, weeks = 2,
     pickupDate = ''2025-01-15'', returnDate = ''2025-01-16'', pickupTime = ''09:00'',
     returnTime = ''18:00''\<rparr>"

text \<open>
  Two time zones: India, five and a half hours ahead of UTC all year; and London in 2025,
  on UTC until 30 March 01:00 UTC, then one hour ahead until 26 October 01:00 UTC.
\<close>

definition zone_Kolkata :: zone where
  "zone_Kolkata = \<lparr>LocalTZA = (\<lambda>t isUTC. 19800000)\<rparr>"

definition zone_London :: zone where
  "zone_London = \<lparr>LocalTZA = (\<lambda>t isUTC.
     if isUTC then (if 1743296400000 \<le> t \<and> t < 1761440400000 then 3600000 else 0)
     else (if 1743300000000 \<le> t \<and> t < 1761444000000 then 3600000 else 0))\<rparr>"

section \<open>Properties\<close>

subsection \<open>Rounding\<close>

lemma Math_round_eq_round: "Math_round x = round x"
  by (simp add: Math_round_def round_def)

lemma Math_round_65: "Math_round (of_int n * 0.65) = (13 * n + 10) div 20"
proof -
  have "(of_int n * 0.65 + 1 / 2 :: rat) = of_int (13 * n + 10) / of_int 20"
    by simp
  then show ?thesis
    unfolding Math_round_def by (simp only: floor_divide_of_int_eq)
qed

lemma round_65: "round (of_int n * 65 / 100 :: rat) = (13 * n + 10) div 20"
proof -
  have "(of_int n * 65 / 100 :: rat) = of_int n * 0.65"
    by simp
  then show ?thesis
    by (simp only: Math_round_65 Math_round_eq_round [symmetric])
qed

lemma Math_round_90: "Math_round (of_int n * 0.9) = (9 * n + 5) div 10"
proof -
  have "(of_int n * 0.9 + 1 / 2 :: rat) = of_int (9 * n + 5) / of_int 10"
    by simp
  then show ?thesis
    unfolding Math_round_def by (simp only: floor_divide_of_int_eq)
qed

lemma round_90: "round (of_int n * 9 / 10 :: rat) = (9 * n + 5) div 10"
proof -
  have "(of_int n * 9 / 10 :: rat) = of_int n * 0.9"
    by simp
  then show ?thesis
    by (simp only: Math_round_90 Math_round_eq_round [symmetric])
qed

subsection \<open>Division with remainder\<close>

lemma int_div_bounds:
  fixes a n :: int
  assumes "0 < n"
  shows "n * (a div n) \<le> a" and "a \<le> n * (a div n) + n - 1"
proof -
  have e: "n * (a div n) + a mod n = a"
    by (rule mult_div_mod_eq)
  have "0 \<le> a mod n" "a mod n < n"
    using assms by simp_all
  with e show "n * (a div n) \<le> a" and "a \<le> n * (a div n) + n - 1"
    by linarith+
qed

lemma div_between:
  fixes a b q :: int
  assumes "q * b \<le> a" and "a < q * b + b"
  shows "a div b = q"
proof (rule int_div_pos_eq)
  show "a = b * q + (a - q * b)"
    by (simp add: mult.commute)
  show "0 \<le> a - q * b"
    using assms(1) by simp
  show "a - q * b < b"
    using assms(2) by simp
qed

subsection \<open>Rounding to 53 bits\<close>

text \<open>The number of binary digits.\<close>

lemma bit_length_le: "n < 2 ^ m \<Longrightarrow> bit_length n \<le> m"
proof (induction m arbitrary: n)
  case 0
  then show ?case
    by (simp add: bit_length.simps)
next
  case (Suc m)
  show ?case
  proof (cases "n \<le> 0")
    case True
    then show ?thesis
      by (simp add: bit_length.simps)
  next
    case False
    from Suc.prems have "n div 2 < 2 ^ m"
      by simp
    then have "bit_length (n div 2) \<le> m"
      by (rule Suc.IH)
    with False show ?thesis
      by (simp add: bit_length.simps [of n])
  qed
qed

lemma bit_length_gt: "2 ^ m \<le> n \<Longrightarrow> m < bit_length n"
proof (induction m arbitrary: n)
  case 0
  then show ?case
    by (simp add: bit_length.simps [of n])
next
  case (Suc m)
  from Suc.prems have p: "0 < n"
    by (smt (verit) zero_less_power)
  from Suc.prems have "2 ^ m \<le> n div 2"
    by simp
  then have "m < bit_length (n div 2)"
    by (rule Suc.IH)
  with p show ?case
    by (simp add: bit_length.simps [of n])
qed

lemma bit_length_double: "0 < n \<Longrightarrow> bit_length (2 * n) = Suc (bit_length n)"
  by (simp add: bit_length.simps [of "2 * n"])

text \<open>
  Integers of magnitude below \<open>2 ^ 53\<close> are doubles. Rounding commutes with doubling, hence
  with every power of two.
\<close>

lemma round_to_53_exact: "\<bar>N\<bar> < 2 ^ 53 \<Longrightarrow> round_to_53 N = N"
  by (simp add: round_to_53_def)

lemma round_to_53_twice_unfold:
  assumes "\<not> \<bar>N\<bar> < 2 ^ 52"
  shows "round_to_53 (2 * N) =
      (let k = bit_length (2 * \<bar>N\<bar>) - 53; q = (2 * \<bar>N\<bar>) div 2 ^ k; r = (2 * \<bar>N\<bar>) mod 2 ^ k
       in sgn N * ((if 2 ^ k < 2 * r \<or> (2 * r = 2 ^ k \<and> odd q) then q + 1 else q) * 2 ^ k))"
proof -
  from assms have big: "\<not> 2 * \<bar>N\<bar> < 2 ^ 53"
    by simp
  then show ?thesis
    by (simp add: round_to_53_def sgn_mult abs_mult)
qed

lemma bit_length_twice_53:
  assumes "\<not> \<bar>N\<bar> < 2 ^ 52" "\<bar>N\<bar> < 2 ^ 53"
  shows "bit_length (2 * \<bar>N\<bar>) - 53 = 1"
proof -
  have p: "0 < \<bar>N\<bar>"
    using assms by simp
    from assms have "53 \<le> bit_length \<bar>N\<bar>"
      using bit_length_gt [of 52 "\<bar>N\<bar>"] by simp
    moreover from assms have "bit_length \<bar>N\<bar> \<le> 53"
      by (intro bit_length_le)
    ultimately have "bit_length \<bar>N\<bar> = 53"
      by simp
    then show k: "bit_length (2 * \<bar>N\<bar>) - 53 = 1"
      by (simp add: bit_length_double [OF p])
qed

lemma round_to_53_twice_53:
  assumes "\<not> \<bar>N\<bar> < 2 ^ 52" "\<bar>N\<bar> < 2 ^ 53"
  shows "round_to_53 (2 * N) = sgn N * (\<bar>N\<bar> * 2)"
  unfolding round_to_53_twice_unfold [OF assms(1)] Let_def bit_length_twice_53 [OF assms] by simp

lemma round_to_53_twice_mid:
  assumes "\<not> \<bar>N\<bar> < 2 ^ 52" "\<bar>N\<bar> < 2 ^ 53"
  shows "round_to_53 (2 * N) = 2 * round_to_53 N"
proof -
  have "sgn N * (\<bar>N\<bar> * 2) = 2 * N"
    by (simp add: mult_sgn_abs)
  with round_to_53_twice_53 [OF assms] show ?thesis
    using assms(2) by (simp add: round_to_53_exact)
qed

lemma round_to_53_twice_big:
  assumes F: "\<not> \<bar>N\<bar> < 2 ^ 53"
  shows "round_to_53 (2 * N) = 2 * round_to_53 N"
proof -
  from F have n52: "\<not> \<bar>N\<bar> < 2 ^ 52"
    by simp
  have p: "0 < \<bar>N\<bar>"
    using F by simp
  define k where "k = bit_length \<bar>N\<bar> - 53"
  define q where "q = \<bar>N\<bar> div 2 ^ k"
  define r where "r = \<bar>N\<bar> mod 2 ^ k"
  define X where "X = (if 2 ^ k < 2 * r \<or> (2 * r = 2 ^ k \<and> odd q) then q + 1 else q)"
  from F have "53 < bit_length \<bar>N\<bar>"
    using bit_length_gt [of 53 "\<bar>N\<bar>"] by simp
  then have k': "bit_length (2 * \<bar>N\<bar>) - 53 = Suc k"
    by (simp add: bit_length_double [OF p] k_def)
  have d: "(2 * \<bar>N\<bar>) div 2 ^ Suc k = q"
    by (simp add: q_def)
  have m: "(2 * \<bar>N\<bar>) mod 2 ^ Suc k = 2 * r"
    unfolding r_def power_Suc by (rule mult_mod_right [symmetric])
  have c: "(2 ^ Suc k < 2 * (2 * r) \<or> (2 * (2 * r) = 2 ^ Suc k \<and> odd q))
      \<longleftrightarrow> ((2::int) ^ k < 2 * r \<or> (2 * r = 2 ^ k \<and> odd q))"
    by simp
  have "round_to_53 (2 * N) = sgn N * (X * 2 ^ Suc k)"
    unfolding round_to_53_twice_unfold [OF n52] Let_def k' d m c X_def ..
  moreover have "round_to_53 N = sgn N * (X * 2 ^ k)"
    unfolding X_def k_def q_def r_def using F by (simp add: round_to_53_def Let_def)
  ultimately show ?thesis
    by (simp only: power_Suc)
qed

lemma round_to_53_twice: "round_to_53 (2 * N) = 2 * round_to_53 N"
proof (cases "\<bar>N\<bar> < 2 ^ 52")
  case True
  then have "\<bar>2 * N\<bar> < 2 ^ 53" "\<bar>N\<bar> < 2 ^ 53"
    by simp_all
  then show ?thesis
    by (simp only: round_to_53_exact)
next
  case False
  show ?thesis
  proof (cases "\<bar>N\<bar> < 2 ^ 53")
    case True
    with False show ?thesis
      by (rule round_to_53_twice_mid)
  next
    case False
    then show ?thesis
      by (rule round_to_53_twice_big)
  qed
qed

lemma round_to_53_shift: "round_to_53 (N * 2 ^ m) = round_to_53 N * 2 ^ m"
proof (induction m)
  case 0
  show ?case by simp
next
  case (Suc m)
  have "round_to_53 (N * 2 ^ Suc m) = round_to_53 (2 * (N * 2 ^ m))"
    by (simp add: mult.commute mult.left_commute)
  also have "\<dots> = 2 * (round_to_53 N * 2 ^ m)"
    by (simp only: round_to_53_twice Suc.IH)
  finally show ?case
    by simp
qed

text \<open>
  A fraction with a power of two below the line has one in lowest terms too, so \<open>fl\<close>
  rounds the numerator of every such fraction, reduced or not.
\<close>

lemma pow2_divisor:
  fixes b :: int
  assumes "0 < b" and "b dvd 2 ^ j"
  shows "\<exists>i\<le>j. b = 2 ^ i"
  using assms
proof (induction j arbitrary: b)
  case 0
  then have "b = 1"
    by simp
  then show ?case
    by simp
next
  case (Suc j)
  show ?case
  proof (cases "even b")
    case True
    then obtain c where c: "b = 2 * c"
      by (auto elim: evenE)
    with Suc.prems have "0 < c" "c dvd 2 ^ j"
      by simp_all
    then obtain i where "i \<le> j" "c = 2 ^ i"
      using Suc.IH by blast
    with c have "Suc i \<le> Suc j \<and> b = 2 ^ Suc i"
      by simp
    then show ?thesis
      by blast
  next
    case False
    then have "coprime b 2"
      by simp
    with Suc.prems(2) have "b dvd 2 ^ j"
      by (simp add: coprime_dvd_mult_right_iff)
    with Suc.prems(1) obtain i where "i \<le> j" "b = 2 ^ i"
      using Suc.IH by blast
    then have "i \<le> Suc j \<and> b = 2 ^ i"
      by simp
    then show ?thesis
      by blast
  qed
qed

lemma fl_of_int: "fl (of_int n) = of_int (round_to_53 n)"
  by (simp add: fl_def quotient_of_int)

lemma fl_dyadic: "fl (of_int N / 2 ^ j) = of_int (round_to_53 N) / 2 ^ j"
proof -
  obtain a b where q: "quotient_of (of_int N / 2 ^ j) = (a, b)"
    by (cases "quotient_of (of_int N / 2 ^ j)")
  then have b: "0 < b" and c: "coprime a b"
    and e: "(of_int N / 2 ^ j :: rat) = of_int a / of_int b"
    by (rule quotient_of_denom_pos, rule quotient_of_coprime, rule quotient_of_div)
  from e b have "(of_int (N * b) :: rat) = of_int (a * 2 ^ j)"
    by (simp add: field_simps)
  then have n: "N * b = a * 2 ^ j"
    by (simp only: of_int_eq_iff)
  then have "b dvd a * 2 ^ j"
    by (metis dvd_triv_right)
  with c have "b dvd 2 ^ j"
    by (simp add: coprime_dvd_mult_right_iff coprime_commute)
  with b obtain i where i: "i \<le> j" "b = 2 ^ i"
    using pow2_divisor by blast
  then have j: "(2::int) ^ j = 2 ^ (j - i) * 2 ^ i"
    by (simp flip: power_add)
  with n i have "N * 2 ^ i = (a * 2 ^ (j - i)) * 2 ^ i"
    by simp
  then have N: "N = a * 2 ^ (j - i)"
    by simp
  have "fl (of_int N / 2 ^ j) = of_int (round_to_53 a) / of_int b"
    by (simp add: fl_def q)
  also have "\<dots> = of_int (round_to_53 a * 2 ^ (j - i)) / 2 ^ j"
  proof -
    have "(2::rat) ^ j = 2 ^ (j - i) * 2 ^ i"
      using i(1) by (simp flip: power_add)
    then show ?thesis
      by (simp add: i(2))
  qed
  also have "\<dots> = of_int (round_to_53 N) / 2 ^ j"
    by (simp only: N round_to_53_shift)
  finally show ?thesis .
qed


text \<open>
  Rounding moves \<open>N\<close> to a neighbouring multiple of \<open>2 ^ k\<close>: it stays above every such
  multiple below \<open>N\<close>, and rises by at most half of \<open>2 ^ k\<close>.
\<close>

lemma round_to_53_lower:
  assumes "0 \<le> N" and "N < 2 ^ (53 + K)" and "B \<le> N" and "2 ^ K dvd B"
  shows "B \<le> round_to_53 N"
proof (cases "N < 2 ^ 53")
  case True
  with assms(1,3) show ?thesis
    by (simp add: round_to_53_def)
next
  case False
  with assms(1) have a: "\<bar>N\<bar> = N" and s: "sgn N = 1"
    by simp_all
  define k where "k = bit_length N - 53"
  define q where "q = N div 2 ^ k"
  have k: "k \<le> K"
    using bit_length_le [OF assms(2)] by (simp add: k_def)
  then have "(2::int) ^ k dvd 2 ^ K"
    by (rule le_imp_power_dvd)
  then have "2 ^ k dvd B"
    using assms(4) by (rule dvd_trans)
  then obtain b where b: "B = b * 2 ^ k"
    by (auto simp: dvd_def mult.commute)
  have p: "(0::int) < 2 ^ k"
    by simp
  from b assms(3) have "b * 2 ^ k \<le> N"
    by simp
  then have "(b * 2 ^ k) div 2 ^ k \<le> N div 2 ^ k"
    using p by (intro zdiv_mono1) simp_all
  then have "b \<le> q"
    unfolding q_def by simp
  then have "b * 2 ^ k \<le> q * 2 ^ k"
    by (rule mult_right_mono) simp
  also have "q * 2 ^ k \<le> round_to_53 N"
    using False p
    by (simp add: round_to_53_def Let_def a s k_def [symmetric] q_def [symmetric])
  finally show ?thesis
    unfolding b .
qed

lemma round_to_53_upper:
  assumes "0 \<le> N" and "N < 2 ^ (53 + K)"
  shows "2 * round_to_53 N \<le> 2 * N + 2 ^ K"
proof (cases "N < 2 ^ 53")
  case True
  with assms(1) show ?thesis
    by (simp add: round_to_53_def)
next
  case False
  with assms(1) have a: "\<bar>N\<bar> = N" and s: "sgn N = 1"
    by simp_all
  define k where "k = bit_length N - 53"
  define q where "q = N div 2 ^ k"
  define r where "r = N mod 2 ^ k"
  have k: "k \<le> K"
    using bit_length_le [OF assms(2)] by (simp add: k_def)
  then have le: "(2::int) ^ k \<le> 2 ^ K"
    by (intro power_increasing) simp_all
  have N: "N = q * 2 ^ k + r"
    unfolding q_def r_def by (rule div_mult_mod_eq [symmetric])
  have r0: "0 \<le> r"
    by (simp add: r_def)
  have e: "round_to_53 N
      = (if 2 ^ k < 2 * r \<or> (2 * r = 2 ^ k \<and> odd q) then q + 1 else q) * 2 ^ k"
    using False
    by (simp add: round_to_53_def Let_def a s k_def [symmetric] q_def [symmetric]
        r_def [symmetric])
  have "2 * round_to_53 N \<le> 2 * N + 2 ^ k"
  proof (cases "2 ^ k < 2 * r \<or> (2 * r = 2 ^ k \<and> odd q)")
    case True
    then have "2 ^ k \<le> 2 * r"
      by auto
    moreover from True have "round_to_53 N = q * 2 ^ k + 2 ^ k"
      by (simp add: e algebra_simps)
    ultimately show ?thesis
      using N by linarith
  next
    case False
    then have "round_to_53 N = q * 2 ^ k"
      by (simp add: e)
    with N r0 show ?thesis
      by simp
  qed
  with le show ?thesis
    by linarith
qed

lemma Math_round_double:
  assumes "(2 * T - 1) * 2 ^ 52 \<le> Y" and "Y < (2 * T + 1) * 2 ^ 52"
  shows "Math_round (of_int Y / 2 ^ 53) = T"
proof -
  have "(of_int Y / 2 ^ 53 + 1 / 2 :: rat) = of_int (2 * Y + 2 ^ 53) / of_int (2 ^ 54)"
    by simp
  then have "Math_round (of_int Y / 2 ^ 53) = (2 * Y + 2 ^ 53) div 2 ^ 54"
    unfolding Math_round_def by (simp only: floor_divide_of_int_eq)
  also have "\<dots> = T"
  proof (rule div_between)
    show "T * 2 ^ 54 \<le> 2 * Y + 2 ^ 53"
      using assms(1) by (simp add: algebra_simps)
    show "2 * Y + 2 ^ 53 < T * 2 ^ 54 + 2 ^ 54"
      using assms(2) by (simp add: algebra_simps)
  qed
  finally show ?thesis .
qed

text \<open>
  For a nonnegative integer below \<open>2 ^ 49\<close> the product of the machine with \<^verbatim>\<open>0.65\<close>
  rounds to the same integer as the exact product with the decimal, and below \<open>2 ^ 50\<close>
  so does the product with \<^verbatim>\<open>0.9\<close>.
\<close>

lemma Number_times_double_065:
  "Number_times (of_int n) double_065 = of_int (round_to_53 (n * 5854679515581645)) / 2 ^ 53"
proof -
  have "of_int n * double_065 = (of_int (n * 5854679515581645) / 2 ^ 53 :: rat)"
    by (simp add: double_065_def)
  then show ?thesis
    unfolding Number_times_def by (simp only: fl_dyadic)
qed

lemma Number_times_double_09:
  "Number_times (of_int n) double_09 = of_int (round_to_53 (n * 8106479329266893)) / 2 ^ 53"
proof -
  have "of_int n * double_09 = (of_int (n * 8106479329266893) / 2 ^ 53 :: rat)"
    by (simp add: double_09_def)
  then show ?thesis
    unfolding Number_times_def by (simp only: fl_dyadic)
qed

lemma double_times_065:
  assumes "0 \<le> n" and "n < 2 ^ 49"
  shows "Math_round (Number_times (of_int n) double_065) = Math_round (of_int n * 0.65)"
proof -
  define T where "T = (13 * n + 10) div 20"
  define N where "N = n * 5854679515581645"
  define Y where "Y = round_to_53 N"
  have t: "20 * T \<le> 13 * n + 10" "13 * n + 10 \<le> 20 * T + 20 - 1"
    unfolding T_def by (rule int_div_bounds, simp)+
  have N0: "0 \<le> N"
    using assms(1) by (simp add: N_def)
  have "N \<le> 2 ^ 49 * 5854679515581645"
    unfolding N_def using assms(2) by (intro mult_right_mono) simp_all
  then have N1: "N < 2 ^ (53 + 49)"
    by simp
  have B: "(2 * T - 1) * 2 ^ 52 \<le> N"
    using t(1) assms(1) by (simp add: N_def algebra_simps)
  have "(2 * T - 1) * 2 ^ 52 = 2 ^ 49 * ((2 * T - 1) * 2 ^ 3)"
    by simp
  then have D: "2 ^ 49 dvd (2 * T - 1) * 2 ^ 52"
    by (simp only: dvd_triv_left)
  have lo: "(2 * T - 1) * 2 ^ 52 \<le> Y"
    unfolding Y_def by (rule round_to_53_lower [OF N0 N1 B D])
  have "2 * Y \<le> 2 * N + 2 ^ 49"
    unfolding Y_def by (rule round_to_53_upper [OF N0 N1])
  then have hi: "Y < (2 * T + 1) * 2 ^ 52"
    using t(2) assms by (simp add: N_def algebra_simps)
  have "Math_round (Number_times (of_int n) double_065) = T"
    unfolding Number_times_double_065 N_def [symmetric] Y_def [symmetric]
    by (rule Math_round_double [OF lo hi])
  then show ?thesis
    by (simp only: Math_round_65 T_def)
qed

lemma double_times_09:
  assumes "0 \<le> n" and "n < 2 ^ 50"
  shows "Math_round (Number_times (of_int n) double_09) = Math_round (of_int n * 0.9)"
proof -
  define T where "T = (9 * n + 5) div 10"
  define N where "N = n * 8106479329266893"
  define Y where "Y = round_to_53 N"
  have t: "10 * T \<le> 9 * n + 5" "9 * n + 5 \<le> 10 * T + 10 - 1"
    unfolding T_def by (rule int_div_bounds, simp)+
  have N0: "0 \<le> N"
    using assms(1) by (simp add: N_def)
  have "N \<le> 2 ^ 50 * 8106479329266893"
    unfolding N_def using assms(2) by (intro mult_right_mono) simp_all
  then have N1: "N < 2 ^ (53 + 50)"
    by simp
  have B: "(2 * T - 1) * 2 ^ 52 \<le> N"
    using t(1) assms(1) by (simp add: N_def algebra_simps)
  have "(2 * T - 1) * 2 ^ 52 = 2 ^ 50 * ((2 * T - 1) * 2 ^ 2)"
    by simp
  then have D: "2 ^ 50 dvd (2 * T - 1) * 2 ^ 52"
    by (simp only: dvd_triv_left)
  have lo: "(2 * T - 1) * 2 ^ 52 \<le> Y"
    unfolding Y_def by (rule round_to_53_lower [OF N0 N1 B D])
  have "2 * Y \<le> 2 * N + 2 ^ 50"
    unfolding Y_def by (rule round_to_53_upper [OF N0 N1])
  then have hi: "Y < (2 * T + 1) * 2 ^ 52"
    using t(2) assms by (simp add: N_def algebra_simps)
  have "Math_round (Number_times (of_int n) double_09) = T"
    unfolding Number_times_double_09 N_def [symmetric] Y_def [symmetric]
    by (rule Math_round_double [OF lo hi])
  then show ?thesis
    by (simp only: Math_round_90 T_def)
qed

text \<open>
  Just above these bounds the two roundings part: the original price of one week at
  140737488355339 a day, below \<open>2 ^ 50\<close>, and one day at 2251799813685256, above
  \<open>2 ^ 51\<close>, are products that the machine rounds one unit higher than the decimal.
\<close>

lemma double_times_limit:
  "Math_round (Number_times (140737488355339 * 7) double_065) = 640355572016793
   \<and> Math_round (140737488355339 * 7 * 0.65) = 640355572016792
   \<and> Math_round (Number_times 2251799813685256 double_09) = 2026619832316731
   \<and> Math_round (2251799813685256 * 0.9) = 2026619832316730"
  by code_simp

subsection \<open>Substrings\<close>

lemma startsWith_iff: "startsWith s p \<longleftrightarrow> (\<exists>b. s = p @ b)"
  by (induction s p rule: startsWith.induct) auto

lemma includes_str_iff: "includes_str s p \<longleftrightarrow> (\<exists>a b. s = a @ p @ b)"
proof (induction s)
  case Nil
  then show ?case by auto
next
  case (Cons c cs)
  show ?case
  proof
    assume "includes_str (c # cs) p"
    then consider "startsWith (c # cs) p" | "includes_str cs p"
      by auto
    then show "\<exists>a b. c # cs = a @ p @ b"
    proof cases
      case 1
      then obtain b where "c # cs = [] @ p @ b"
        by (auto simp: startsWith_iff)
      then show ?thesis by blast
    next
      case 2
      then obtain a b where "cs = a @ p @ b"
        using Cons.IH by blast
      then have "c # cs = (c # a) @ p @ b"
        by simp
      then show ?thesis by blast
    qed
  next
    assume "\<exists>a b. c # cs = a @ p @ b"
    then obtain a b where ab: "c # cs = a @ p @ b"
      by blast
    show "includes_str (c # cs) p"
    proof (cases a)
      case Nil
      with ab have "startsWith (c # cs) p"
        by (auto simp: startsWith_iff)
      then show ?thesis by simp
    next
      case (Cons x a')
      with ab have "cs = a' @ p @ b"
        by simp
      then have "includes_str cs p"
        using Cons.IH by blast
      then show ?thesis by simp
    qed
  qed
qed

subsection \<open>Pricing\<close>

text \<open>
  The arithmetic of integers that stay below \<open>2 ^ 53\<close> is exact.
\<close>

lemma Number_times_of_int:
  "\<bar>a * b\<bar> < 2 ^ 53 \<Longrightarrow> Number_times (of_int a) (of_int b) = of_int (a * b)"
proof -
  assume "\<bar>a * b\<bar> < 2 ^ 53"
  then have "round_to_53 (a * b) = a * b"
    by (rule round_to_53_exact)
  moreover have "Number_times (of_int a) (of_int b) = fl (of_int (a * b))"
    by (simp add: Number_times_def)
  ultimately show ?thesis
    by (simp only: fl_of_int)
qed

lemma Number_minus_of_int:
  "\<bar>a - b\<bar> < 2 ^ 53 \<Longrightarrow> Number_minus (of_int a) (of_int b) = of_int (a - b)"
proof -
  assume "\<bar>a - b\<bar> < 2 ^ 53"
  then have "round_to_53 (a - b) = a - b"
    by (rule round_to_53_exact)
  moreover have "Number_minus (of_int a) (of_int b) = fl (of_int (a - b))"
    by (simp add: Number_minus_def)
  ultimately show ?thesis
    by (simp only: fl_of_int)
qed

text \<open>
  The quote for an integer price \<open>n\<close> in ordinary arithmetic: with the original price
  below \<open>2 ^ 49\<close> for a weekly booking and below \<open>2 ^ 50\<close> for a daily one, every product
  and difference of the calculator is exact and the two discounted totals are the decimal
  roundings.
\<close>

lemma calculatePrice_weekly:
  assumes "bookingType f = weekly" and "0 \<le> weeks f" and "weeks f \<le> 12"
    and "pricePerDay bd = of_int n" and "0 \<le> n" and "n * (weeks f * 7) < 2 ^ 49"
  shows "calculatePrice (Some bd) f =
     \<lparr>quotePricePerDay = of_int n,
      totalPrice = of_int ((13 * (n * (weeks f * 7)) + 10) div 20),
      discount = False, weeklyDiscount = True,
      originalPrice = of_int (n * (weeks f * 7)),
      savings = of_int (n * (weeks f * 7) - (13 * (n * (weeks f * 7)) + 10) div 20)\<rparr>"
proof -
  define m where "m = n * (weeks f * 7)"
  define T where "T = (13 * m + 10) div 20"
  have m0: "0 \<le> m"
    using assms(2,5) by (simp add: m_def)
  have m1: "m < 2 ^ 49"
    using assms(6) by (simp add: m_def)
  have "Number_times (of_int (weeks f)) (of_int 7) = of_int (weeks f * 7)"
    using assms(2,3) by (intro Number_times_of_int) simp
  then have d: "Number_times (of_int (weeks f)) 7 = of_int (weeks f * 7)"
    by simp
  have o: "Number_times (of_int n) (of_int (weeks f * 7)) = of_int m"
    unfolding m_def using m0 m1 by (intro Number_times_of_int) (simp add: m_def)
  have t: "Math_round (Number_times (of_int m) double_065) = T"
    unfolding T_def using double_times_065 [OF m0 m1] by (simp only: Math_round_65)
  have "0 \<le> T" and "T \<le> m"
    unfolding T_def using m0 by linarith+
  with m1 have s: "Number_minus (of_int m) (of_int T) = of_int (m - T)"
    by (intro Number_minus_of_int) simp
  show ?thesis
    unfolding calculatePrice_def option.case Let_def assms(4) d o t s
    using assms(1) by (simp add: m_def T_def)
qed

lemma calculatePrice_daily:
  assumes "bookingType f = daily" and "0 \<le> days f"
    and "pricePerDay bd = of_int n" and "0 \<le> n" and "n * days f < 2 ^ 50"
  shows "calculatePrice (Some bd) f =
     (if days f = 1 \<and>
         (includes_str (model bd) ''Pulsar 150'' \<or> includes_str (model bd) ''Pulsar 125'')
      then \<lparr>quotePricePerDay = of_int n,
            totalPrice = of_int ((9 * (n * days f) + 5) div 10),
            discount = True, weeklyDiscount = False,
            originalPrice = of_int (n * days f),
            savings = of_int (n * days f - (9 * (n * days f) + 5) div 10)\<rparr>
      else \<lparr>quotePricePerDay = of_int n, totalPrice = of_int (n * days f),
            discount = False, weeklyDiscount = False,
            originalPrice = of_int (n * days f), savings = 0\<rparr>)"
proof -
  define m where "m = n * days f"
  define T where "T = (9 * m + 5) div 10"
  have m0: "0 \<le> m"
    using assms(2,4) by (simp add: m_def)
  have m1: "m < 2 ^ 50"
    using assms(5) by (simp add: m_def)
  have o: "Number_times (of_int n) (of_int (days f)) = of_int m"
    unfolding m_def using m0 m1 by (intro Number_times_of_int) (simp add: m_def)
  have t: "Math_round (Number_times (of_int m) double_09) = T"
    unfolding T_def using double_times_09 [OF m0 m1] by (simp only: Math_round_90)
  have "0 \<le> T" and "T \<le> m"
    unfolding T_def using m0 by linarith+
  with m1 have s: "Number_minus (of_int m) (of_int T) = of_int (m - T)"
    by (intro Number_minus_of_int) simp
  from assms(1) have w: "bookingType f \<noteq> weekly"
    by simp
  show ?thesis
    unfolding calculatePrice_def option.case Let_def assms(3) o t s
    using w by (simp add: m_def T_def)
qed

text \<open>An integer price, and a bound on a product of integers, as fractions.\<close>

lemma integer_price:
  assumes "(p :: rat) \<in> \<int>" and "0 \<le> p"
  obtains n :: int where "p = of_int n" and "0 \<le> n"
proof -
  from assms(1) obtain n :: int where n: "p = of_int n"
    by (rule Ints_cases)
  with assms(2) have "0 \<le> n"
    by simp
  with n show ?thesis
    by (rule that)
qed

text \<open>
  C1, as stated, gives \<open>totalPrice = round(originalPrice * 0.65)\<close> for every nonnegative
  integer price. The calculator multiplies doubles, and the product with the double next to
  0.65 is rounded to 53 bits before \<^verbatim>\<open>Math.round\<close> sees it: for one week at
  140737488355339 a day the original price is 985162418487373, 65 percent of it is
  640355572016792.45, and the total of the calculator is 640355572016793.
\<close>

theorem weekly_quote_counterexample:
  "originalPrice (calculatePrice (Some (classic\<lparr>pricePerDay := 140737488355339\<rparr>))
       (initialForm\<lparr>bookingType := weekly\<rparr>))
     = 985162418487373
   \<and> totalPrice (calculatePrice (Some (classic\<lparr>pricePerDay := 140737488355339\<rparr>))
       (initialForm\<lparr>bookingType := weekly\<rparr>))
     = 640355572016793
   \<and> round (985162418487373 * 65 / 100 :: rat) = 640355572016792"
proof -
  have "round (of_int 985162418487373 * 65 / 100 :: rat) = 640355572016792"
    by (simp only: round_65)
  then have r: "round (985162418487373 * 65 / 100 :: rat) = 640355572016792"
    by simp
  have "originalPrice (calculatePrice (Some (classic\<lparr>pricePerDay := 140737488355339\<rparr>))
       (initialForm\<lparr>bookingType := weekly\<rparr>))
     = 985162418487373
   \<and> totalPrice (calculatePrice (Some (classic\<lparr>pricePerDay := 140737488355339\<rparr>))
       (initialForm\<lparr>bookingType := weekly\<rparr>))
     = 640355572016793"
    by code_simp
  with r show ?thesis
    by (rule conjI [rotated, THEN conj_assoc [THEN iffD1]])
qed

text \<open>
  C1, amended. A weekly booking with 1 to 12 weeks and a nonnegative integer price per day,
  with the original price below \<open>2 ^ 49\<close> (as for every price below \<open>2 ^ 42\<close>), is quoted
  with \<open>originalPrice = pricePerDay * weeks * 7\<close>, \<open>totalPrice\<close> the rounding of 65 percent
  of it, \<open>savings\<close> their difference, and the weekly flag set (the daily flag clear),
  whatever the vehicle model is.
\<close>

theorem weekly_quote:
  assumes "bookingType f = weekly" and "1 \<le> weeks f" and "weeks f \<le> 12"
    and "pricePerDay bd \<in> \<int>" and "0 \<le> pricePerDay bd"
    and "pricePerDay bd * of_int (weeks f) * 7 < 2 ^ 49"
  shows "originalPrice (calculatePrice (Some bd) f) = pricePerDay bd * of_int (weeks f) * 7
       \<and> totalPrice (calculatePrice (Some bd) f)
           = of_int (round (pricePerDay bd * of_int (weeks f) * 7 * 65 / 100))
       \<and> savings (calculatePrice (Some bd) f)
           = originalPrice (calculatePrice (Some bd) f) - totalPrice (calculatePrice (Some bd) f)
       \<and> weeklyDiscount (calculatePrice (Some bd) f)
       \<and> \<not> discount (calculatePrice (Some bd) f)"
proof -
  from assms(4,5) obtain n where n: "pricePerDay bd = of_int n" and n0: "0 \<le> n"
    by (rule integer_price)
  have e: "pricePerDay bd * of_int (weeks f) * 7 = (of_int (n * (weeks f * 7)) :: rat)"
    by (simp add: n)
  from assms(6) have "(of_int (n * (weeks f * 7)) :: rat) < of_int (2 ^ 49)"
    unfolding e by simp
  then have b: "n * (weeks f * 7) < 2 ^ 49"
    by (simp only: of_int_less_iff)
  from assms(2) have w: "0 \<le> weeks f"
    by simp
  have r: "round (of_int (n * (weeks f * 7)) * 65 / 100 :: rat)
      = (13 * (n * (weeks f * 7)) + 10) div 20"
    by (rule round_65)
  show ?thesis
    unfolding calculatePrice_weekly [OF assms(1) w assms(3) n n0 b] e r
    by simp
qed

text \<open>
  The spec's example: 550 a day for 2 weeks is 7700, quoted 5005, saving 2695. And the
  largest price of the table of weekly bookings (its column \<^verbatim>\<open>price_per_day\<close> is a 32-bit
  integer) for the longest booking: 2147483647 a day for 12 weeks.
\<close>

theorem weekly_quote_witness:
  "originalPrice (calculatePrice (Some classic) (initialForm\<lparr>bookingType := weekly, weeks := 2\<rparr>))
     = 7700
   \<and> totalPrice (calculatePrice (Some classic) (initialForm\<lparr>bookingType := weekly, weeks := 2\<rparr>))
     = 5005
   \<and> savings (calculatePrice (Some classic) (initialForm\<lparr>bookingType := weekly, weeks := 2\<rparr>))
     = 2695
   \<and> originalPrice (calculatePrice (Some (classic\<lparr>pricePerDay := 2147483647\<rparr>))
         (initialForm\<lparr>bookingType := weekly, weeks := 12\<rparr>))
     = 180388626348
   \<and> totalPrice (calculatePrice (Some (classic\<lparr>pricePerDay := 2147483647\<rparr>))
         (initialForm\<lparr>bookingType := weekly, weeks := 12\<rparr>))
     = 117252607126"
proof -
  have v: "round (550 * of_int 2 * 7 * 65 / 100 :: rat) = 5005"
    "round (2147483647 * of_int 12 * 7 * 65 / 100 :: rat) = 117252607126"
    using round_65 [of 7700] round_65 [of 180388626348] by simp_all
  from weekly_quote [of "initialForm\<lparr>bookingType := weekly, weeks := 2\<rparr>" classic] v(1)
  have one: "originalPrice
        (calculatePrice (Some classic) (initialForm\<lparr>bookingType := weekly, weeks := 2\<rparr>)) = 7700
     \<and> totalPrice
        (calculatePrice (Some classic) (initialForm\<lparr>bookingType := weekly, weeks := 2\<rparr>)) = 5005
     \<and> savings
        (calculatePrice (Some classic) (initialForm\<lparr>bookingType := weekly, weeks := 2\<rparr>)) = 2695"
    by (simp add: initialForm_def classic_def)
  from weekly_quote [of "initialForm\<lparr>bookingType := weekly, weeks := 12\<rparr>"
      "classic\<lparr>pricePerDay := 2147483647\<rparr>"] v(2)
  have two: "originalPrice (calculatePrice (Some (classic\<lparr>pricePerDay := 2147483647\<rparr>))
         (initialForm\<lparr>bookingType := weekly, weeks := 12\<rparr>)) = 180388626348
     \<and> totalPrice (calculatePrice (Some (classic\<lparr>pricePerDay := 2147483647\<rparr>))
         (initialForm\<lparr>bookingType := weekly, weeks := 12\<rparr>)) = 117252607126"
    by (simp add: initialForm_def classic_def)
  from one two show ?thesis
    by (elim conjE) (intro conjI; assumption)
qed

text \<open>
  C2, as stated, gives \<open>totalPrice = round(originalPrice * 0.9)\<close> for the discounted day at
  every nonnegative integer price. The product with the double next to 0.9 is rounded to
  53 bits first: for one day on a Pulsar 150 at 2251799813685256, 90 percent is
  2026619832316730.4, and the total of the calculator is 2026619832316731.
\<close>

theorem daily_quote_counterexample:
  "originalPrice (calculatePrice (Some (pulsar\<lparr>pricePerDay := 2251799813685256\<rparr>))
       (initialForm\<lparr>days := 1\<rparr>))
     = 2251799813685256
   \<and> totalPrice (calculatePrice (Some (pulsar\<lparr>pricePerDay := 2251799813685256\<rparr>))
       (initialForm\<lparr>days := 1\<rparr>))
     = 2026619832316731
   \<and> round (2251799813685256 * 9 / 10 :: rat) = 2026619832316730"
proof -
  have "round (of_int 2251799813685256 * 9 / 10 :: rat) = 2026619832316730"
    by (simp only: round_90)
  then have r: "round (2251799813685256 * 9 / 10 :: rat) = 2026619832316730"
    by simp
  have "originalPrice (calculatePrice (Some (pulsar\<lparr>pricePerDay := 2251799813685256\<rparr>))
       (initialForm\<lparr>days := 1\<rparr>))
     = 2251799813685256
   \<and> totalPrice (calculatePrice (Some (pulsar\<lparr>pricePerDay := 2251799813685256\<rparr>))
       (initialForm\<lparr>days := 1\<rparr>))
     = 2026619832316731"
    by code_simp
  with r show ?thesis
    by (rule conjI [rotated, THEN conj_assoc [THEN iffD1]])
qed

text \<open>
  C2, amended. A daily booking with 1 to 30 days and a nonnegative integer price per day,
  with the original price below \<open>2 ^ 50\<close>, is quoted at \<open>pricePerDay * days\<close> with no saving
  and no flag, except for exactly one day on a model whose name contains \<open>Pulsar 150\<close> or
  \<open>Pulsar 125\<close>: then the total is the rounding of 90 percent of the original price, the
  saving is the difference and the daily flag is set.
\<close>

theorem daily_quote:
  assumes "bookingType f = daily" and "1 \<le> days f" and "days f \<le> 30"
    and "pricePerDay bd \<in> \<int>" and "0 \<le> pricePerDay bd"
    and "pricePerDay bd * of_int (days f) < 2 ^ 50"
  shows "originalPrice (calculatePrice (Some bd) f) = pricePerDay bd * of_int (days f)
       \<and> \<not> weeklyDiscount (calculatePrice (Some bd) f)
       \<and> (if days f = 1 \<and> ((\<exists>a b. model bd = a @ ''Pulsar 150'' @ b)
                           \<or> (\<exists>a b. model bd = a @ ''Pulsar 125'' @ b))
          then totalPrice (calculatePrice (Some bd) f)
                 = of_int (round (pricePerDay bd * of_int (days f) * 9 / 10))
             \<and> savings (calculatePrice (Some bd) f)
                 = originalPrice (calculatePrice (Some bd) f)
                   - totalPrice (calculatePrice (Some bd) f)
             \<and> discount (calculatePrice (Some bd) f)
          else totalPrice (calculatePrice (Some bd) f) = pricePerDay bd * of_int (days f)
             \<and> savings (calculatePrice (Some bd) f) = 0
             \<and> \<not> discount (calculatePrice (Some bd) f))"
proof -
  let ?pulsar = "includes_str (model bd) ''Pulsar 150'' \<or> includes_str (model bd) ''Pulsar 125''"
  have p: "?pulsar \<longleftrightarrow> (\<exists>a b. model bd = a @ ''Pulsar 150'' @ b)
                           \<or> (\<exists>a b. model bd = a @ ''Pulsar 125'' @ b)"
    by (simp only: includes_str_iff)
  from assms(4,5) obtain n where n: "pricePerDay bd = of_int n" and n0: "0 \<le> n"
    by (rule integer_price)
  have e: "pricePerDay bd * of_int (days f) = (of_int (n * days f) :: rat)"
    by (simp add: n)
  from assms(6) have "(of_int (n * days f) :: rat) < of_int (2 ^ 50)"
    unfolding e by simp
  then have b: "n * days f < 2 ^ 50"
    by (simp only: of_int_less_iff)
  from assms(2) have d: "0 \<le> days f"
    by simp
  have r: "round (of_int (n * days f) * 9 / 10 :: rat) = (9 * (n * days f) + 5) div 10"
    by (rule round_90)
  note q = calculatePrice_daily [OF assms(1) d n n0 b]
  show ?thesis
  proof (cases "days f = 1 \<and> ?pulsar")
    case True
    note c = True [unfolded p]
    note s = trans [OF q if_P [OF True]]
    show ?thesis
      unfolding if_P [OF c] s e r by simp
  next
    case False
    note c = False [unfolded p]
    note s = trans [OF q if_not_P [OF False]]
    show ?thesis
      unfolding if_not_P [OF c] s e by simp
  qed
qed

text \<open>
  The spec's examples: one day on a Pulsar 150 at 550 is quoted 495, saving 55; two days on
  the same model are quoted 1100 with no discount. And the largest integer price of the
  table of daily bookings (its column \<^verbatim>\<open>price_per_day\<close> has ten digits, two of them
  decimals), 99999999, for one day and for thirty.
\<close>

theorem daily_quote_witness:
  "totalPrice (calculatePrice (Some pulsar) (initialForm\<lparr>days := 1\<rparr>)) = 495
   \<and> savings (calculatePrice (Some pulsar) (initialForm\<lparr>days := 1\<rparr>)) = 55
   \<and> discount (calculatePrice (Some pulsar) (initialForm\<lparr>days := 1\<rparr>))
   \<and> totalPrice (calculatePrice (Some pulsar) (initialForm\<lparr>days := 2\<rparr>)) = 1100
   \<and> savings (calculatePrice (Some pulsar) (initialForm\<lparr>days := 2\<rparr>)) = 0
   \<and> \<not> discount (calculatePrice (Some pulsar) (initialForm\<lparr>days := 2\<rparr>))
   \<and> totalPrice (calculatePrice (Some (pulsar\<lparr>pricePerDay := 99999999\<rparr>))
         (initialForm\<lparr>days := 1\<rparr>))
     = 89999999
   \<and> totalPrice (calculatePrice (Some (pulsar\<lparr>pricePerDay := 99999999\<rparr>))
         (initialForm\<lparr>days := 30\<rparr>))
     = 2999999970"
proof -
  have m: "model pulsar = ''Bajaj '' @ ''Pulsar 150'' @ []"
    by (simp add: pulsar_def)
  then have e: "\<exists>a b. model pulsar = a @ ''Pulsar 150'' @ b"
    by blast
  then have e': "\<exists>a b. model (pulsar\<lparr>pricePerDay := 99999999\<rparr>) = a @ ''Pulsar 150'' @ b"
    by simp
  have v: "round (550 * of_int 1 * 9 / 10 :: rat) = 495"
    "round (99999999 * of_int 1 * 9 / 10 :: rat) = 89999999"
    using round_90 [of 550] round_90 [of 99999999] by simp_all
  from daily_quote [of "initialForm\<lparr>days := 1\<rparr>" pulsar] e v(1)
  have one: "totalPrice (calculatePrice (Some pulsar) (initialForm\<lparr>days := 1\<rparr>)) = 495
     \<and> savings (calculatePrice (Some pulsar) (initialForm\<lparr>days := 1\<rparr>)) = 55
     \<and> discount (calculatePrice (Some pulsar) (initialForm\<lparr>days := 1\<rparr>))"
    by (simp add: initialForm_def pulsar_def)
  from daily_quote [of "initialForm\<lparr>days := 2\<rparr>" pulsar]
  have two: "totalPrice (calculatePrice (Some pulsar) (initialForm\<lparr>days := 2\<rparr>)) = 1100
     \<and> savings (calculatePrice (Some pulsar) (initialForm\<lparr>days := 2\<rparr>)) = 0
     \<and> \<not> discount (calculatePrice (Some pulsar) (initialForm\<lparr>days := 2\<rparr>))"
    by (simp add: initialForm_def pulsar_def)
  from daily_quote [of "initialForm\<lparr>days := 1\<rparr>" "pulsar\<lparr>pricePerDay := 99999999\<rparr>"] e' v(2)
  have three: "totalPrice (calculatePrice (Some (pulsar\<lparr>pricePerDay := 99999999\<rparr>))
         (initialForm\<lparr>days := 1\<rparr>)) = 89999999"
    by (simp add: initialForm_def)
  from daily_quote [of "initialForm\<lparr>days := 30\<rparr>" "pulsar\<lparr>pricePerDay := 99999999\<rparr>"]
  have four: "totalPrice (calculatePrice (Some (pulsar\<lparr>pricePerDay := 99999999\<rparr>))
         (initialForm\<lparr>days := 30\<rparr>)) = 2999999970"
    by (simp add: initialForm_def)
  from one two three four show ?thesis
    by (elim conjE) (intro conjI; assumption)
qed




subsection \<open>The calendar\<close>

text \<open>
  \<open>YearFromTime\<close> is the year the language specification asks for: the year whose first
  day is the last one not after the day of \<open>t\<close>.
\<close>

lemma DayFromYear_bounds:
  "1460970 * k - 5060 \<le> 4000 * DayFromYear (1970 + k)"
  "4000 * DayFromYear (1970 + k) \<le> 1460970 * k + 5890"
proof -
  define a where "a = (k + 1) div 4"
  define b where "b = (k + 69) div 100"
  define c where "c = (k + 369) div 400"
  have a: "4 * a \<le> k + 1" "k + 1 \<le> 4 * a + 4 - 1"
    unfolding a_def by (rule int_div_bounds, simp)+
  have b: "100 * b \<le> k + 69" "k + 69 \<le> 100 * b + 100 - 1"
    unfolding b_def by (rule int_div_bounds, simp)+
  have c: "400 * c \<le> k + 369" "k + 369 \<le> 400 * c + 400 - 1"
    unfolding c_def by (rule int_div_bounds, simp)+
  have d: "4000 * DayFromYear (1970 + k) = 1460000 * k + 4000 * a - 4000 * b + 4000 * c"
    by (simp add: DayFromYear_def a_def b_def c_def add.commute)
  from a(2) b(1) c(2) show "1460970 * k - 5060 \<le> 4000 * DayFromYear (1970 + k)"
    unfolding d by linarith
  from a(1) b(2) c(1) show "4000 * DayFromYear (1970 + k) \<le> 1460970 * k + 5890"
    unfolding d by linarith
qed

lemma YearFromTime_spec:
  "DayFromYear (YearFromTime t) \<le> Day t \<and> Day t < DayFromYear (YearFromTime t + 1)"
proof -
  define d where "d = Day t"
  define q where "q = (400 * d) div 146097"
  have q: "146097 * q \<le> 400 * d" "400 * d \<le> 146097 * q + 146097 - 1"
    unfolding q_def by (rule int_div_bounds, simp)+
  have "1460970 * q + 2916880 \<le> 4000 * DayFromYear (1970 + (q + 2))"
    using DayFromYear_bounds(1) [of "q + 2"] by simp
  with q(2) have up: "d < DayFromYear (1970 + (q + 2))"
    by linarith
  have "4000 * DayFromYear (1970 + (q - 1)) \<le> 1460970 * q - 1455080"
    using DayFromYear_bounds(2) [of "q - 1"] by (simp add: algebra_simps)
  with q(1) have lo: "DayFromYear (1970 + (q - 1)) \<le> d"
    by linarith
  have e: "1970 + q + 1 + 1 = 1970 + (q + 2)" "1970 + q - 1 = 1970 + (q - 1)"
    "1970 + q - 1 + 1 = 1970 + q"
    by simp_all
  have Y: "YearFromTime t =
      (if DayFromYear (1970 + q + 1) \<le> d then 1970 + q + 1
       else if d < DayFromYear (1970 + q) then 1970 + q - 1 else 1970 + q)"
    by (simp add: YearFromTime_def Let_def d_def q_def)
  show ?thesis
    unfolding Y d_def [symmetric] using up lo by (simp add: e)
qed

subsection \<open>Traces\<close>

lemma attempts_append: "attempts (xs @ ys) = attempts xs @ attempts ys"
  by (induction xs rule: attempts.induct) simp_all

lemma since_append: "effects w' = effects w @ es \<Longrightarrow> since w w' = es"
  by (simp add: since_def)

lemma alerts_since_append: "alerts w' = alerts w @ as \<Longrightarrow> alerts_since w w' = as"
  by (simp add: alerts_since_def)

lemma supabase_alert_not_failure:
  "supabase_alert ''Supabase Error: '' e \<noteq> failure_message"
  "supabase_alert ''Weekly Booking Supabase Error: '' e \<noteq> failure_message"
  by (simp_all add: supabase_alert_def failure_message_def)

subsection \<open>The persistence functions, one by one\<close>

text \<open>The answer of each function, and the world it leaves.\<close>

lemma submitToSupabase_fst:
  "fst (submitToSupabase env p w) \<longleftrightarrow>
     \<not> unset (VITE_SUPABASE_URL env) \<and> \<not> unset (VITE_SUPABASE_ANON_KEY env)
     \<and> supabase_insert env ''bookings'' (bookingPayload p) = Inserted"
  by (simp add: submitToSupabase_def Let_def split: insert_outcome.splits)

lemma submitToSupabase_snd:
  "snd (submitToSupabase env p w) =
     w\<lparr>effects := effects w @ Attempt RemoteStore #
         (if unset (VITE_SUPABASE_URL env) \<or> unset (VITE_SUPABASE_ANON_KEY env) then []
          else [InsertRequest ''bookings'' (bookingPayload p)]),
       alerts := alerts w @
         (if unset (VITE_SUPABASE_URL env) \<or> unset (VITE_SUPABASE_ANON_KEY env) then []
          else case supabase_insert env ''bookings'' (bookingPayload p) of
                 Rejected e \<Rightarrow> [supabase_alert ''Supabase Error: '' e]
               | _ \<Rightarrow> [])\<rparr>"
  by (simp add: submitToSupabase_def Let_def emit_def alert_def split: insert_outcome.splits)

lemma submitWeekly_fst:
  "fst (submitWeeklyBookingToSupabase env p w) \<longleftrightarrow>
     \<not> unset (VITE_SUPABASE_URL env) \<and> \<not> unset (VITE_SUPABASE_ANON_KEY env)
     \<and> supabase_insert env ''weekly_bookings'' p = Inserted"
  by (simp add: submitWeeklyBookingToSupabase_def Let_def split: insert_outcome.splits)

lemma submitWeekly_snd:
  "snd (submitWeeklyBookingToSupabase env p w) =
     w\<lparr>effects := effects w @ Attempt RemoteStore #
         (if unset (VITE_SUPABASE_URL env) \<or> unset (VITE_SUPABASE_ANON_KEY env) then []
          else [InsertRequest ''weekly_bookings'' p]),
       alerts := alerts w @
         (if unset (VITE_SUPABASE_URL env) \<or> unset (VITE_SUPABASE_ANON_KEY env) then []
          else case supabase_insert env ''weekly_bookings'' p of
                 Rejected e \<Rightarrow> [supabase_alert ''Weekly Booking Supabase Error: '' e]
               | _ \<Rightarrow> [])\<rparr>"
  by (simp add: submitWeeklyBookingToSupabase_def Let_def emit_def alert_def
      split: insert_outcome.splits)

lemma submitToGoogleForm_fst:
  "fst (submitToGoogleForm env p w) \<longleftrightarrow> relay_fetch env (JObj p)"
  by (simp add: submitToGoogleForm_def Let_def)

lemma submitToGoogleForm_snd:
  "snd (submitToGoogleForm env p w) =
     w\<lparr>effects := effects w @ [Attempt FormRelay, FetchRequest (JObj p)]\<rparr>"
  by (simp add: submitToGoogleForm_def Let_def emit_def)

lemma store_fst:
  "fst (storeBookingLocally env p w) \<longleftrightarrow>
     (\<exists>xs. existingBookings (pendingBookings w) = Some (JArr xs)
        \<and> storage_setItem env (JArr (xs @ [JObj (bookingWithTimestamp env p)])))"
  by (auto simp: storeBookingLocally_def Let_def emit_def split: option.splits jsval.splits)

lemma store_snd:
  "snd (storeBookingLocally env p w) =
     (case existingBookings (pendingBookings w) of
        Some (JArr xs) \<Rightarrow>
          w\<lparr>effects := effects w @
               [Attempt LocalStorage,
                SetItemRequest (JArr (xs @ [JObj (bookingWithTimestamp env p)]))],
            pendingBookings :=
              (if storage_setItem env (JArr (xs @ [JObj (bookingWithTimestamp env p)]))
               then Item (JArr (xs @ [JObj (bookingWithTimestamp env p)]))
               else pendingBookings w)\<rparr>
      | _ \<Rightarrow> w\<lparr>effects := effects w @ [Attempt LocalStorage]\<rparr>)"
  by (simp add: storeBookingLocally_def Let_def emit_def split: option.splits jsval.splits)

text \<open>Whether a tier succeeds does not depend on the trace, the alerts or the flags.\<close>

lemma store_fst_cong:
  "pendingBookings w = pendingBookings v \<Longrightarrow>
   fst (storeBookingLocally env p w) = fst (storeBookingLocally env p v)"
  by (simp add: store_fst)

lemma bookingWithTimestamp_fields:
  "map_of (bookingWithTimestamp env p) ''savedAt'' = Some (JStr (ISOString (clock env)))"
  "map_of (bookingWithTimestamp env p) ''id'' = Some (JStr (''local-'' @ String_int (clock env)))"
  "k \<noteq> ''savedAt'' \<Longrightarrow> k \<noteq> ''id'' \<Longrightarrow> map_of (bookingWithTimestamp env p) k = map_of p k"
  "fst ` set (bookingWithTimestamp env p) = fst ` set p \<union> {''savedAt'', ''id''}"
  by (auto simp: bookingWithTimestamp_def update_conv' dom_update)

subsection \<open>The local fallback write\<close>

text \<open>
  C10. When the slot holds a sequence \<open>xs\<close> of saved bookings (an absent slot holds the empty
  one) and the local write succeeds, the slot holds \<open>xs\<close> followed by exactly one new entry:
  every entry stored before is still there, unchanged and in place. The new entry has the
  fields of the payload and the two fields \<open>savedAt\<close> and \<open>id\<close>; every other field has the
  payload's value, \<open>savedAt\<close> is the time of the write, and \<open>id\<close> starts with \<open>local-\<close>.
\<close>

theorem local_write_appends:
  assumes "existingBookings (pendingBookings w) = Some (JArr xs)"
    and "fst (storeBookingLocally env payload w)"
  shows "\<exists>entry.
           pendingBookings (snd (storeBookingLocally env payload w))
             = Item (JArr (xs @ [JObj entry]))
         \<and> fst ` set entry = fst ` set payload \<union> {''savedAt'', ''id''}
         \<and> (\<forall>k. k \<noteq> ''savedAt'' \<and> k \<noteq> ''id'' \<longrightarrow> map_of entry k = map_of payload k)
         \<and> map_of entry ''savedAt'' = Some (JStr (ISOString (clock env)))
         \<and> (\<exists>n. map_of entry ''id'' = Some (JStr (''local-'' @ n)))"
proof -
  from assms have "pendingBookings (snd (storeBookingLocally env payload w))
      = Item (JArr (xs @ [JObj (bookingWithTimestamp env payload)]))"
    by (auto simp: store_fst store_snd)
  then show ?thesis
    using bookingWithTimestamp_fields [where env = env and p = payload] by blast
qed

text \<open>
  A write of the payload \<open>{name: "Asha"}\<close> on a slot that holds one booking, in the
  environment where only the storage answers.
\<close>

theorem local_write_appends_witness:
  "existingBookings (pendingBookings (world0\<lparr>pendingBookings :=
        Item (JArr [JObj [(''id'', JStr ''local-1'')]])\<rparr>))
     = Some (JArr [JObj [(''id'', JStr ''local-1'')]])
   \<and> fst (storeBookingLocally env_offline [(''name'', JStr ''Asha'')]
        (world0\<lparr>pendingBookings := Item (JArr [JObj [(''id'', JStr ''local-1'')]])\<rparr>))
   \<and> (\<exists>entry.
         pendingBookings (snd (storeBookingLocally env_offline [(''name'', JStr ''Asha'')]
           (world0\<lparr>pendingBookings := Item (JArr [JObj [(''id'', JStr ''local-1'')]])\<rparr>)))
           = Item (JArr ([JObj [(''id'', JStr ''local-1'')]] @ [JObj entry]))
         \<and> fst ` set entry = fst ` set [(''name'', JStr ''Asha'')] \<union> {''savedAt'', ''id''}
         \<and> (\<forall>k. k \<noteq> ''savedAt'' \<and> k \<noteq> ''id'' \<longrightarrow>
                map_of entry k = map_of [(''name'', JStr ''Asha'')] k)
         \<and> map_of entry ''savedAt'' = Some (JStr (ISOString (clock env_offline)))
         \<and> (\<exists>n. map_of entry ''id'' = Some (JStr (''local-'' @ n))))"
proof -
  let ?w = "world0\<lparr>pendingBookings := Item (JArr [JObj [(''id'', JStr ''local-1'')]])\<rparr>"
  have h1: "existingBookings (pendingBookings ?w) = Some (JArr [JObj [(''id'', JStr ''local-1'')]])"
    by (simp add: existingBookings_def world0_def)
  have h2: "fst (storeBookingLocally env_offline [(''name'', JStr ''Asha'')] ?w)"
    by code_simp
  show ?thesis
    by (rule conjI [OF h1 conjI [OF h2 local_write_appends [OF h1 h2]]])
qed

subsection \<open>The world after a tier\<close>

lemma attempts_requests: "(\<forall>t. Attempt t \<notin> set es) \<Longrightarrow> attempts es = []"
  by (induction es rule: attempts.induct) auto

lemma submitToSupabase_world:
  obtains es as where
    "snd (submitToSupabase env p w)
       = w\<lparr>effects := effects w @ Attempt RemoteStore # es, alerts := alerts w @ as\<rparr>"
    and "set es \<subseteq> {InsertRequest ''bookings'' (bookingPayload p)}"
    and "failure_message \<notin> set as"
    and "unset (VITE_SUPABASE_URL env) \<or> unset (VITE_SUPABASE_ANON_KEY env) \<Longrightarrow> es = [] \<and> as = []"
    and "supabase_insert env ''bookings'' (bookingPayload p) = Threw \<Longrightarrow> as = []"
proof
  let ?u = "unset (VITE_SUPABASE_URL env) \<or> unset (VITE_SUPABASE_ANON_KEY env)"
  let ?es = "if ?u then [] else [InsertRequest ''bookings'' (bookingPayload p)]"
  let ?as = "if ?u then []
             else case supabase_insert env ''bookings'' (bookingPayload p) of
                    Rejected e \<Rightarrow> [supabase_alert ''Supabase Error: '' e] | _ \<Rightarrow> []"
  show "snd (submitToSupabase env p w)
       = w\<lparr>effects := effects w @ Attempt RemoteStore # ?es, alerts := alerts w @ ?as\<rparr>"
    by (simp only: submitToSupabase_snd)
  show "set ?es \<subseteq> {InsertRequest ''bookings'' (bookingPayload p)}"
    by simp
  show "failure_message \<notin> set ?as"
    using supabase_alert_not_failure(1) [symmetric]
    by (simp split: insert_outcome.splits)
  show "?es = [] \<and> ?as = []" if ?u
    using that by simp
  show "?as = []" if "supabase_insert env ''bookings'' (bookingPayload p) = Threw"
    using that by simp
qed

lemma store_world:
  obtains es st where
    "snd (storeBookingLocally env p w)
       = w\<lparr>effects := effects w @ Attempt LocalStorage # es, pendingBookings := st\<rparr>"
    and "\<forall>e \<in> set es. \<exists>v. e = SetItemRequest v"
    and "\<not> fst (storeBookingLocally env p w) \<Longrightarrow> st = pendingBookings w"
    and "\<And>xs. existingBookings (pendingBookings w) = Some (JArr xs) \<Longrightarrow>
           fst (storeBookingLocally env p w) \<Longrightarrow>
           st = Item (JArr (xs @ [JObj (bookingWithTimestamp env p)]))"
    and "\<And>xs. existingBookings (pendingBookings w) = Some (JArr xs) \<Longrightarrow>
           SetItemRequest (JArr (xs @ [JObj (bookingWithTimestamp env p)])) \<in> set es"
proof (cases "\<exists>xs. existingBookings (pendingBookings w) = Some (JArr xs)")
  case True
  then obtain xs where xs: "existingBookings (pendingBookings w) = Some (JArr xs)"
    by blast
  let ?new = "JArr (xs @ [JObj (bookingWithTimestamp env p)])"
  let ?st = "if storage_setItem env ?new then Item ?new else pendingBookings w"
  show ?thesis
  proof
    show "snd (storeBookingLocally env p w)
       = w\<lparr>effects := effects w @ Attempt LocalStorage # [SetItemRequest ?new],
            pendingBookings := ?st\<rparr>"
      by (simp add: store_snd xs)
    show "\<forall>e \<in> set [SetItemRequest ?new]. \<exists>v. e = SetItemRequest v"
      by simp
    show "?st = pendingBookings w" if "\<not> fst (storeBookingLocally env p w)"
      using that by (simp add: store_fst xs)
    show "?st = Item (JArr (ys @ [JObj (bookingWithTimestamp env p)]))"
      if "existingBookings (pendingBookings w) = Some (JArr ys)"
        and "fst (storeBookingLocally env p w)" for ys
      using that by (simp add: store_fst xs)
    show "SetItemRequest (JArr (ys @ [JObj (bookingWithTimestamp env p)]))
        \<in> set [SetItemRequest ?new]"
      if "existingBookings (pendingBookings w) = Some (JArr ys)" for ys
      using that by (simp add: xs)
  qed
next
  case False
  then have f: "\<not> fst (storeBookingLocally env p w)"
    by (simp add: store_fst)
  from False have s: "snd (storeBookingLocally env p w)
      = w\<lparr>effects := effects w @ [Attempt LocalStorage]\<rparr>"
    by (simp add: store_snd split: option.splits jsval.splits)
  show ?thesis
  proof
    show "snd (storeBookingLocally env p w)
       = w\<lparr>effects := effects w @ Attempt LocalStorage # [], pendingBookings := pendingBookings w\<rparr>"
      by (simp add: s)
    show "\<forall>e \<in> set []. \<exists>v. e = SetItemRequest v"
      by simp
    show "pendingBookings w = pendingBookings w" if "\<not> fst (storeBookingLocally env p w)"
      by simp
    show "pendingBookings w = Item (JArr (ys @ [JObj (bookingWithTimestamp env p)]))"
      if "existingBookings (pendingBookings w) = Some (JArr ys)"
        and "fst (storeBookingLocally env p w)" for ys
      using that f by simp
    show "SetItemRequest (JArr (ys @ [JObj (bookingWithTimestamp env p)])) \<in> set []"
      if "existingBookings (pendingBookings w) = Some (JArr ys)" for ys
      using that False by simp
  qed
qed

subsection \<open>The weekly submission\<close>

lemma submitBooking_weekly:
  "bookingType f = weekly \<Longrightarrow>
   submitBooking env (Some bd) f w =
     (let p = weeklyPayload bd f (calculatePrice (Some bd) f);
          p' = AList.update ''timestamp'' (JStr (ISOString (clock env)))
                 (AList.update ''bookingType'' (JStr ''weekly'') p);
          w0 = w\<lparr>isSubmitting := True\<rparr>;
          w1 = snd (submitWeeklyBookingToSupabase env p w0);
          w2 = snd (storeBookingLocally env p' w1)
      in if fst (submitWeeklyBookingToSupabase env p w0)
         then w1\<lparr>currentStep := thank_you, isSubmitting := False\<rparr>
         else if fst (storeBookingLocally env p' w1)
         then w2\<lparr>currentStep := thank_you, isSubmitting := False\<rparr>
         else (alert failure_message w2)\<lparr>isSubmitting := False\<rparr>)"
  by (simp add: submitBooking_def Let_def split: prod.splits)

text \<open>
  C6. A weekly submission enters the remote tier first and, when both credentials are set,
  sends exactly one insert request, for the table \<open>weekly_bookings\<close> with the weekly
  payload; the tier succeeds exactly when that insert is accepted. The local tier is
  entered only when the remote tier has failed, with the payload extended by the booking
  type and a time stamp; the relay tier is never entered and no request goes to the relay.
  When the remote tier succeeds nothing is written to the local storage. When it fails and
  the local write succeeds, the slot holds what it held followed by exactly one new entry,
  whose \<open>id\<close> starts with \<open>local-\<close>. When both tiers fail the step stays on the form,
  nothing is stored, and the last alert is the directive to contact the shop directly;
  otherwise the confirmation step is reached and that alert is not shown.
\<close>

theorem weekly_fallback:
  assumes "bookingType f = weekly"
  shows "let p = weeklyPayload bd f (calculatePrice (Some bd) f);
             p' = AList.update ''timestamp'' (JStr (ISOString (clock env)))
                    (AList.update ''bookingType'' (JStr ''weekly'') p);
             configured = (\<not> unset (VITE_SUPABASE_URL env) \<and> \<not> unset (VITE_SUPABASE_ANON_KEY env));
             remote_ok = fst (submitWeeklyBookingToSupabase env p w);
             local_ok = fst (storeBookingLocally env p' w);
             w' = submitBooking env (Some bd) f w
         in effects w' = effects w @ since w w'
          \<and> alerts w' = alerts w @ alerts_since w w'
          \<and> (remote_ok \<longleftrightarrow> configured \<and> supabase_insert env ''weekly_bookings'' p = Inserted)
          \<and> (local_ok \<longleftrightarrow>
                (\<exists>xs. existingBookings (pendingBookings w) = Some (JArr xs)
                   \<and> storage_setItem env (JArr (xs @ [JObj (bookingWithTimestamp env p')]))))
          \<and> attempts (since w w')
              = (if remote_ok then [RemoteStore] else [RemoteStore, LocalStorage])
          \<and> filter is_insert (since w w')
              = (if configured then [InsertRequest ''weekly_bookings'' p] else [])
          \<and> \<not> list_ex is_fetch (since w w')
          \<and> (remote_ok \<longrightarrow>
                pendingBookings w' = pendingBookings w
                \<and> (\<forall>v. SetItemRequest v \<notin> set (since w w')))
          \<and> (\<not> remote_ok \<and> local_ok \<longrightarrow>
                (\<exists>xs entry. existingBookings (pendingBookings w) = Some (JArr xs)
                   \<and> entry = bookingWithTimestamp env p'
                   \<and> pendingBookings w' = Item (JArr (xs @ [JObj entry]))
                   \<and> SetItemRequest (JArr (xs @ [JObj entry])) \<in> set (since w w')
                   \<and> (\<forall>k. k \<noteq> ''savedAt'' \<and> k \<noteq> ''id'' \<longrightarrow> map_of entry k = map_of p' k)
                   \<and> (\<exists>n. map_of entry ''id'' = Some (JStr (''local-'' @ n)))))
          \<and> (remote_ok \<or> local_ok \<longrightarrow>
                currentStep w' = thank_you \<and> failure_message \<notin> set (alerts_since w w'))
          \<and> (\<not> remote_ok \<and> \<not> local_ok \<longrightarrow>
                currentStep w' = currentStep w \<and> pendingBookings w' = pendingBookings w
                \<and> alerts_since w w' \<noteq> [] \<and> last (alerts_since w w') = failure_message)
          \<and> \<not> isSubmitting w'"
proof -
  define p where "p = weeklyPayload bd f (calculatePrice (Some bd) f)"
  define p' where "p' = AList.update ''timestamp'' (JStr (ISOString (clock env)))
                    (AList.update ''bookingType'' (JStr ''weekly'') p)"
  define C where "C \<longleftrightarrow> \<not> unset (VITE_SUPABASE_URL env) \<and> \<not> unset (VITE_SUPABASE_ANON_KEY env)"
  define w0 where "w0 = w\<lparr>isSubmitting := True\<rparr>"
  define w1 where "w1 = snd (submitWeeklyBookingToSupabase env p w0)"
  define w2 where "w2 = snd (storeBookingLocally env p' w1)"
  define R where "R = fst (submitWeeklyBookingToSupabase env p w)"
  define L where "L = fst (storeBookingLocally env p' w)"
  define w' where "w' = submitBooking env (Some bd) f w"
  define es where "es = (if C then [InsertRequest ''weekly_bookings'' p] else [])"
  define as where "as =
     (if unset (VITE_SUPABASE_URL env) \<or> unset (VITE_SUPABASE_ANON_KEY env) then []
      else case supabase_insert env ''weekly_bookings'' p of
             Rejected e \<Rightarrow> [supabase_alert ''Weekly Booking Supabase Error: '' e]
           | _ \<Rightarrow> [])"
  have w1: "w1 = w0\<lparr>effects := effects w0 @ Attempt RemoteStore # es, alerts := alerts w0 @ as\<rparr>"
    unfolding w1_def es_def as_def C_def by (simp add: submitWeekly_snd)
  have as: "failure_message \<notin> set as"
    unfolding as_def using supabase_alert_not_failure(2) [symmetric]
    by (simp split: insert_outcome.splits)
  obtain es' st where w2: "w2 = w1\<lparr>effects := effects w1 @ Attempt LocalStorage # es',
        pendingBookings := st\<rparr>"
    and es': "\<forall>e \<in> set es'. \<exists>v. e = SetItemRequest v"
    and st: "\<not> fst (storeBookingLocally env p' w1) \<Longrightarrow> st = pendingBookings w1"
    and st': "\<And>xs. existingBookings (pendingBookings w1) = Some (JArr xs) \<Longrightarrow>
           fst (storeBookingLocally env p' w1) \<Longrightarrow>
           st = Item (JArr (xs @ [JObj (bookingWithTimestamp env p')]))"
    and rq: "\<And>xs. existingBookings (pendingBookings w1) = Some (JArr xs) \<Longrightarrow>
           SetItemRequest (JArr (xs @ [JObj (bookingWithTimestamp env p')])) \<in> set es'"
    unfolding w2_def by (rule store_world [of env p' w1]) blast
  have pb: "pendingBookings w1 = pendingBookings w"
    by (simp add: w1 w0_def)
  have R0: "fst (submitWeeklyBookingToSupabase env p w0) = R"
    by (simp add: R_def submitWeekly_fst)
  have L1: "fst (storeBookingLocally env p' w1) = L"
    unfolding L_def by (rule store_fst_cong) (rule pb)
  have w': "w' = (if R then w1\<lparr>currentStep := thank_you, isSubmitting := False\<rparr>
         else if L then w2\<lparr>currentStep := thank_you, isSubmitting := False\<rparr>
         else (alert failure_message w2)\<lparr>isSubmitting := False\<rparr>)"
    unfolding w'_def submitBooking_weekly [OF assms] Let_def
    by (simp only: p_def [symmetric] p'_def [symmetric] w0_def [symmetric] w1_def [symmetric]
        w2_def [symmetric] R0 L1)
  have r: "R \<longleftrightarrow> C \<and> supabase_insert env ''weekly_bookings'' p = Inserted"
    by (simp add: R_def C_def submitWeekly_fst)
  have l: "L \<longleftrightarrow> (\<exists>xs. existingBookings (pendingBookings w) = Some (JArr xs)
                   \<and> storage_setItem env (JArr (xs @ [JObj (bookingWithTimestamp env p')])))"
    unfolding L_def by (rule store_fst)
  have a1: "attempts es = []"
    by (simp add: es_def)
  have a2: "attempts es' = []"
    using es' by (intro attempts_requests) auto
  have i1: "filter is_insert es = es"
    by (simp add: es_def)
  have i2: "filter is_insert es' = []"
    using es' by (auto simp: filter_empty_conv)
  have f1: "\<not> list_ex is_fetch es"
    by (simp add: es_def)
  have f2: "\<not> list_ex is_fetch es'"
    using es' by (auto simp: list_ex_iff)
  have s1: "SetItemRequest v \<notin> set es" for v
    by (simp add: es_def)
  have written: "\<exists>xs entry. existingBookings (pendingBookings w) = Some (JArr xs)
        \<and> entry = bookingWithTimestamp env p'
        \<and> st = Item (JArr (xs @ [JObj entry]))
        \<and> SetItemRequest (JArr (xs @ [JObj entry])) \<in> set es'
        \<and> (\<forall>k. k \<noteq> ''savedAt'' \<and> k \<noteq> ''id'' \<longrightarrow> map_of entry k = map_of p' k)
        \<and> (\<exists>n. map_of entry ''id'' = Some (JStr (''local-'' @ n)))" if L
  proof -
    from that obtain xs where xs: "existingBookings (pendingBookings w) = Some (JArr xs)"
      by (auto simp: l)
    with that L1 pb st' [of xs] rq [of xs]
    have "st = Item (JArr (xs @ [JObj (bookingWithTimestamp env p')]))
        \<and> SetItemRequest (JArr (xs @ [JObj (bookingWithTimestamp env p')])) \<in> set es'"
      by simp
    with xs bookingWithTimestamp_fields [where env = env and p = p'] show ?thesis
      by blast
  qed
  have rest: "effects w' = effects w @ since w w'
          \<and> alerts w' = alerts w @ alerts_since w w'
          \<and> attempts (since w w') = (if R then [RemoteStore] else [RemoteStore, LocalStorage])
          \<and> filter is_insert (since w w')
              = (if C then [InsertRequest ''weekly_bookings'' p] else [])
          \<and> \<not> list_ex is_fetch (since w w')
          \<and> (R \<longrightarrow>
                pendingBookings w' = pendingBookings w
                \<and> (\<forall>v. SetItemRequest v \<notin> set (since w w')))
          \<and> (\<not> R \<and> L \<longrightarrow>
                (\<exists>xs entry. existingBookings (pendingBookings w) = Some (JArr xs)
                   \<and> entry = bookingWithTimestamp env p'
                   \<and> pendingBookings w' = Item (JArr (xs @ [JObj entry]))
                   \<and> SetItemRequest (JArr (xs @ [JObj entry])) \<in> set (since w w')
                   \<and> (\<forall>k. k \<noteq> ''savedAt'' \<and> k \<noteq> ''id'' \<longrightarrow> map_of entry k = map_of p' k)
                   \<and> (\<exists>n. map_of entry ''id'' = Some (JStr (''local-'' @ n)))))
          \<and> (R \<or> L \<longrightarrow>
                currentStep w' = thank_you \<and> failure_message \<notin> set (alerts_since w w'))
          \<and> (\<not> R \<and> \<not> L \<longrightarrow>
                currentStep w' = currentStep w \<and> pendingBookings w' = pendingBookings w
                \<and> alerts_since w w' \<noteq> [] \<and> last (alerts_since w w') = failure_message)
          \<and> \<not> isSubmitting w'"
  proof (cases R)
    case True
    with w' have e: "w' = w1\<lparr>currentStep := thank_you, isSubmitting := False\<rparr>"
      by simp
    have "since w w' = Attempt RemoteStore # es" and "alerts_since w w' = as"
      by (simp_all add: e w1 w0_def since_def alerts_since_def)
    with True as a1 i1 f1 s1 show ?thesis
      by (simp add: e w1 w0_def es_def)
  next
    case False
    note nR = this
    show ?thesis
    proof (cases L)
      case True
      with nR w' have e: "w' = w2\<lparr>currentStep := thank_you, isSubmitting := False\<rparr>"
        by simp
      have t: "since w w' = Attempt RemoteStore # es @ Attempt LocalStorage # es'"
        and u: "alerts_since w w' = as"
        by (simp_all add: e w2 w1 w0_def since_def alerts_since_def)
      from written [OF True] have "\<exists>xs entry. existingBookings (pendingBookings w) = Some (JArr xs)
          \<and> entry = bookingWithTimestamp env p'
          \<and> pendingBookings w' = Item (JArr (xs @ [JObj entry]))
          \<and> SetItemRequest (JArr (xs @ [JObj entry])) \<in> set (since w w')
          \<and> (\<forall>k. k \<noteq> ''savedAt'' \<and> k \<noteq> ''id'' \<longrightarrow> map_of entry k = map_of p' k)
          \<and> (\<exists>n. map_of entry ''id'' = Some (JStr (''local-'' @ n)))"
        unfolding t by (auto simp: e w2)
      moreover have "effects w' = effects w @ since w w' \<and> alerts w' = alerts w @ alerts_since w w'"
        by (simp add: t u) (simp add: e w2 w1 w0_def)
      moreover have "attempts (since w w') = [RemoteStore, LocalStorage]
          \<and> filter is_insert (since w w') = es \<and> \<not> list_ex is_fetch (since w w')"
        using a1 a2 i1 i2 f1 f2 by (simp add: t attempts_append)
      moreover have "currentStep w' = thank_you \<and> \<not> isSubmitting w'"
        by (simp add: e)
      ultimately show ?thesis
        using nR True as u by (simp add: es_def)
    next
      case False
      with nR w' have e: "w' = (alert failure_message w2)\<lparr>isSubmitting := False\<rparr>"
        by simp
      from False L1 st pb have s: "st = pendingBookings w"
        by simp
      have t: "since w w' = Attempt RemoteStore # es @ Attempt LocalStorage # es'"
        and u: "alerts_since w w' = as @ [failure_message]"
        by (simp_all add: e w2 w1 w0_def since_def alerts_since_def alert_def)
      have "effects w' = effects w @ since w w' \<and> alerts w' = alerts w @ alerts_since w w'"
        by (simp add: t u) (simp add: e w2 w1 w0_def alert_def)
      moreover have "attempts (since w w') = [RemoteStore, LocalStorage]
          \<and> filter is_insert (since w w') = es \<and> \<not> list_ex is_fetch (since w w')"
        using a1 a2 i1 i2 f1 f2 by (simp add: t attempts_append)
      moreover have "currentStep w' = currentStep w \<and> pendingBookings w' = pendingBookings w
          \<and> \<not> isSubmitting w'"
        by (simp add: e w2 w1 w0_def alert_def s)
      ultimately show ?thesis
        using nR False u by (simp add: es_def)
    qed
  qed
  from rest r l
  have "effects w' = effects w @ since w w'
          \<and> alerts w' = alerts w @ alerts_since w w'
          \<and> (R \<longleftrightarrow> C \<and> supabase_insert env ''weekly_bookings'' p = Inserted)
          \<and> (L \<longleftrightarrow>
                (\<exists>xs. existingBookings (pendingBookings w) = Some (JArr xs)
                   \<and> storage_setItem env (JArr (xs @ [JObj (bookingWithTimestamp env p')]))))
          \<and> attempts (since w w') = (if R then [RemoteStore] else [RemoteStore, LocalStorage])
          \<and> filter is_insert (since w w')
              = (if C then [InsertRequest ''weekly_bookings'' p] else [])
          \<and> \<not> list_ex is_fetch (since w w')
          \<and> (R \<longrightarrow>
                pendingBookings w' = pendingBookings w
                \<and> (\<forall>v. SetItemRequest v \<notin> set (since w w')))
          \<and> (\<not> R \<and> L \<longrightarrow>
                (\<exists>xs entry. existingBookings (pendingBookings w) = Some (JArr xs)
                   \<and> entry = bookingWithTimestamp env p'
                   \<and> pendingBookings w' = Item (JArr (xs @ [JObj entry]))
                   \<and> SetItemRequest (JArr (xs @ [JObj entry])) \<in> set (since w w')
                   \<and> (\<forall>k. k \<noteq> ''savedAt'' \<and> k \<noteq> ''id'' \<longrightarrow> map_of entry k = map_of p' k)
                   \<and> (\<exists>n. map_of entry ''id'' = Some (JStr (''local-'' @ n)))))
          \<and> (R \<or> L \<longrightarrow>
                currentStep w' = thank_you \<and> failure_message \<notin> set (alerts_since w w'))
          \<and> (\<not> R \<and> \<not> L \<longrightarrow>
                currentStep w' = currentStep w \<and> pendingBookings w' = pendingBookings w
                \<and> alerts_since w w' \<noteq> [] \<and> last (alerts_since w w') = failure_message)
          \<and> \<not> isSubmitting w'"
    by (elim conjE) (intro conjI; assumption)
  then show ?thesis
    unfolding Let_def p_def p'_def C_def R_def L_def w'_def .
qed

text \<open>
  Three runs of a weekly booking from the empty storage. Where the database call throws
  and the storage works, the insert request is sent, the local tier follows, one entry is
  stored and the confirmation is reached. Where every service answers, only the remote
  tier is entered and the storage stays empty. Where the database call throws and the
  storage is full, the form stays open and the alert is shown.
\<close>

theorem weekly_fallback_witness:
  "bookingType (filledForm\<lparr>bookingType := weekly\<rparr>) = weekly
   \<and> attempts (since world0
         (submitBooking env_offline (Some classic) (filledForm\<lparr>bookingType := weekly\<rparr>) world0))
       = [RemoteStore, LocalStorage]
   \<and> filter is_insert (since world0
         (submitBooking env_offline (Some classic) (filledForm\<lparr>bookingType := weekly\<rparr>) world0))
       = [InsertRequest ''weekly_bookings''
            (weeklyPayload classic (filledForm\<lparr>bookingType := weekly\<rparr>)
               (calculatePrice (Some classic) (filledForm\<lparr>bookingType := weekly\<rparr>)))]
   \<and> \<not> list_ex is_fetch (since world0
         (submitBooking env_offline (Some classic) (filledForm\<lparr>bookingType := weekly\<rparr>) world0))
   \<and> (\<exists>entry. pendingBookings
         (submitBooking env_offline (Some classic) (filledForm\<lparr>bookingType := weekly\<rparr>) world0)
           = Item (JArr [JObj entry])
         \<and> (\<exists>n. map_of entry ''id'' = Some (JStr (''local-'' @ n))))
   \<and> currentStep
         (submitBooking env_offline (Some classic) (filledForm\<lparr>bookingType := weekly\<rparr>) world0)
       = thank_you
   \<and> attempts (since world0
         (submitBooking env_online (Some classic) (filledForm\<lparr>bookingType := weekly\<rparr>) world0))
       = [RemoteStore]
   \<and> pendingBookings
         (submitBooking env_online (Some classic) (filledForm\<lparr>bookingType := weekly\<rparr>) world0)
       = NoItem
   \<and> currentStep
         (submitBooking env_online (Some classic) (filledForm\<lparr>bookingType := weekly\<rparr>) world0)
       = thank_you
   \<and> attempts (since world0
         (submitBooking env_cut_off (Some classic) (filledForm\<lparr>bookingType := weekly\<rparr>) world0))
       = [RemoteStore, LocalStorage]
   \<and> pendingBookings
         (submitBooking env_cut_off (Some classic) (filledForm\<lparr>bookingType := weekly\<rparr>) world0)
       = NoItem
   \<and> currentStep
         (submitBooking env_cut_off (Some classic) (filledForm\<lparr>bookingType := weekly\<rparr>) world0)
       = form
   \<and> last (alerts_since world0
         (submitBooking env_cut_off (Some classic) (filledForm\<lparr>bookingType := weekly\<rparr>) world0))
       = failure_message"
proof -
  let ?f = "filledForm\<lparr>bookingType := weekly\<rparr>"
  let ?p = "weeklyPayload classic ?f (calculatePrice (Some classic) ?f)"
  let ?p' = "\<lambda>env. AList.update ''timestamp'' (JStr (ISOString (clock env)))
               (AList.update ''bookingType'' (JStr ''weekly'') ?p)"
  have h: "bookingType ?f = weekly"
    by simp
  have s: "currentStep world0 = form" "pendingBookings world0 = NoItem"
    "existingBookings NoItem = Some (JArr [])"
    by (simp_all add: world0_def existingBookings_def)
  have c: "\<not> unset (VITE_SUPABASE_URL env_offline) \<and> \<not> unset (VITE_SUPABASE_ANON_KEY env_offline)"
    by (simp add: env_offline_def env_online_def unset_def)
  have r1: "\<not> fst (submitWeeklyBookingToSupabase env_offline ?p world0)"
    by (simp add: submitWeekly_fst env_offline_def env_online_def)
  have l1: "fst (storeBookingLocally env_offline (?p' env_offline) world0)"
    by (simp add: store_fst s env_offline_def env_online_def)
  have r2: "fst (submitWeeklyBookingToSupabase env_online ?p world0)"
    by (simp add: submitWeekly_fst env_online_def unset_def)
  have r3: "\<not> fst (submitWeeklyBookingToSupabase env_cut_off ?p world0)"
    by (simp add: submitWeekly_fst env_cut_off_def env_offline_def env_online_def)
  have l3: "\<not> fst (storeBookingLocally env_cut_off (?p' env_cut_off) world0)"
    by (simp add: store_fst env_cut_off_def env_offline_def env_online_def)
  from weekly_fallback [OF h, of classic env_offline world0] r1 l1 c s
  have off: "attempts (since world0 (submitBooking env_offline (Some classic) ?f world0))
       = [RemoteStore, LocalStorage]
     \<and> filter is_insert (since world0 (submitBooking env_offline (Some classic) ?f world0))
       = [InsertRequest ''weekly_bookings'' ?p]
     \<and> \<not> list_ex is_fetch (since world0 (submitBooking env_offline (Some classic) ?f world0))
     \<and> (\<exists>entry. pendingBookings (submitBooking env_offline (Some classic) ?f world0)
           = Item (JArr [JObj entry])
         \<and> (\<exists>n. map_of entry ''id'' = Some (JStr (''local-'' @ n))))
     \<and> currentStep (submitBooking env_offline (Some classic) ?f world0) = thank_you"
    unfolding Let_def by simp
  from weekly_fallback [OF h, of classic env_online world0] r2 s
  have on: "attempts (since world0 (submitBooking env_online (Some classic) ?f world0))
       = [RemoteStore]
     \<and> pendingBookings (submitBooking env_online (Some classic) ?f world0) = NoItem
     \<and> currentStep (submitBooking env_online (Some classic) ?f world0) = thank_you"
    unfolding Let_def by simp
  from weekly_fallback [OF h, of classic env_cut_off world0] r3 l3 s
  have cut: "attempts (since world0 (submitBooking env_cut_off (Some classic) ?f world0))
       = [RemoteStore, LocalStorage]
     \<and> pendingBookings (submitBooking env_cut_off (Some classic) ?f world0) = NoItem
     \<and> currentStep (submitBooking env_cut_off (Some classic) ?f world0) = form
     \<and> last (alerts_since world0 (submitBooking env_cut_off (Some classic) ?f world0))
       = failure_message"
    unfolding Let_def by simp
  from h off on cut show ?thesis
    by (elim conjE) (intro conjI; assumption)
qed

subsection \<open>The daily submission\<close>

lemma submitBooking_daily:
  "bookingType f = daily \<Longrightarrow>
   submitBooking env (Some bd) f w =
     (let p = supabasePayload bd f (calculatePrice (Some bd) f);
          c = commonPayload env bd f (calculatePrice (Some bd) f);
          w0 = w\<lparr>isSubmitting := True\<rparr>;
          w1 = snd (submitToSupabase env p w0);
          w2 = snd (submitToGoogleForm env c w1);
          w3 = snd (storeBookingLocally env c w2)
      in if fst (submitToSupabase env p w0)
         then w1\<lparr>currentStep := thank_you, isSubmitting := False\<rparr>
         else if fst (submitToGoogleForm env c w1)
         then w2\<lparr>currentStep := thank_you, isSubmitting := False\<rparr>
         else if fst (storeBookingLocally env c w2)
         then w3\<lparr>currentStep := thank_you, isSubmitting := False\<rparr>
         else (alert failure_message w3)\<lparr>isSubmitting := False\<rparr>)"
  by (simp add: submitBooking_def Let_def split: prod.splits)

text \<open>
  C5, as stated, says that when the remote store and the relay both fail exactly one new
  entry is written to the local storage. The local write can fail too (the component
  catches it and reports the failure): where the database call throws, the relay is
  unreachable and the storage is full, the slot is left empty and the form stays open.
\<close>

theorem daily_fallback_counterexample:
  "\<not> fst (submitToSupabase env_cut_off
         (supabasePayload pulsar filledForm (calculatePrice (Some pulsar) filledForm)) world0)
   \<and> \<not> fst (submitToGoogleForm env_cut_off
         (commonPayload env_cut_off pulsar filledForm (calculatePrice (Some pulsar) filledForm))
         world0)
   \<and> pendingBookings (submitBooking env_cut_off (Some pulsar) filledForm world0) = NoItem
   \<and> currentStep (submitBooking env_cut_off (Some pulsar) filledForm world0) = form"
  by code_simp

text \<open>
  C5, amended. A daily submission enters the tiers in the order remote store, relay, local
  storage, each at most once, and stops at the first that succeeds. The relay succeeds
  exactly when its \<open>fetch\<close> does not throw. The local storage is written only when the
  remote store and the relay have both failed; if that write succeeds, the slot holds what
  it held followed by exactly one new entry, whose \<open>id\<close> starts with \<open>local-\<close>; if it fails,
  nothing is stored, the step stays on the form and the last alert is the directive to
  contact the shop. Success of any tier leads to the confirmation step, without that alert.
\<close>

theorem daily_fallback:
  assumes "bookingType f = daily"
  shows "let p = supabasePayload bd f (calculatePrice (Some bd) f);
             c = commonPayload env bd f (calculatePrice (Some bd) f);
             remote_ok = fst (submitToSupabase env p w);
             relay_ok = fst (submitToGoogleForm env c w);
             local_ok = fst (storeBookingLocally env c w);
             w' = submitBooking env (Some bd) f w
         in effects w' = effects w @ since w w'
          \<and> alerts w' = alerts w @ alerts_since w w'
          \<and> attempts (since w w')
              = (if remote_ok then [RemoteStore]
                 else if relay_ok then [RemoteStore, FormRelay]
                 else [RemoteStore, FormRelay, LocalStorage])
          \<and> (relay_ok \<longleftrightarrow> relay_fetch env (JObj c))
          \<and> (remote_ok \<or> relay_ok \<longrightarrow> pendingBookings w' = pendingBookings w)
          \<and> (\<not> remote_ok \<and> \<not> relay_ok \<and> local_ok \<longrightarrow>
                (\<exists>xs entry. existingBookings (pendingBookings w) = Some (JArr xs)
                   \<and> pendingBookings w' = Item (JArr (xs @ [JObj entry]))
                   \<and> (\<forall>k. k \<noteq> ''savedAt'' \<and> k \<noteq> ''id'' \<longrightarrow> map_of entry k = map_of c k)
                   \<and> (\<exists>n. map_of entry ''id'' = Some (JStr (''local-'' @ n)))))
          \<and> (remote_ok \<or> relay_ok \<or> local_ok \<longrightarrow>
                currentStep w' = thank_you \<and> failure_message \<notin> set (alerts_since w w'))
          \<and> (\<not> remote_ok \<and> \<not> relay_ok \<and> \<not> local_ok \<longrightarrow>
                currentStep w' = currentStep w \<and> pendingBookings w' = pendingBookings w
                \<and> alerts_since w w' \<noteq> [] \<and> last (alerts_since w w') = failure_message)
          \<and> \<not> isSubmitting w'"
proof -
  define p where "p = supabasePayload bd f (calculatePrice (Some bd) f)"
  define c where "c = commonPayload env bd f (calculatePrice (Some bd) f)"
  define w0 where "w0 = w\<lparr>isSubmitting := True\<rparr>"
  define w1 where "w1 = snd (submitToSupabase env p w0)"
  define w2 where "w2 = snd (submitToGoogleForm env c w1)"
  define w3 where "w3 = snd (storeBookingLocally env c w2)"
  define R where "R = fst (submitToSupabase env p w)"
  define G where "G = fst (submitToGoogleForm env c w)"
  define L where "L = fst (storeBookingLocally env c w)"
  define w' where "w' = submitBooking env (Some bd) f w"
  obtain es as where w1: "w1 = w0\<lparr>effects := effects w0 @ Attempt RemoteStore # es,
        alerts := alerts w0 @ as\<rparr>"
    and es: "set es \<subseteq> {InsertRequest ''bookings'' (bookingPayload p)}"
    and as: "failure_message \<notin> set as"
    unfolding w1_def by (rule submitToSupabase_world [of env p w0]) blast
  have w2: "w2 = w1\<lparr>effects := effects w1 @ [Attempt FormRelay, FetchRequest (JObj c)]\<rparr>"
    by (simp add: w2_def submitToGoogleForm_snd)
  obtain es' st where w3: "w3 = w2\<lparr>effects := effects w2 @ Attempt LocalStorage # es',
        pendingBookings := st\<rparr>"
    and es': "\<forall>e \<in> set es'. \<exists>v. e = SetItemRequest v"
    and st: "\<not> fst (storeBookingLocally env c w2) \<Longrightarrow> st = pendingBookings w2"
    and st': "\<And>xs. existingBookings (pendingBookings w2) = Some (JArr xs) \<Longrightarrow>
           fst (storeBookingLocally env c w2) \<Longrightarrow>
           st = Item (JArr (xs @ [JObj (bookingWithTimestamp env c)]))"
    unfolding w3_def by (rule store_world [of env c w2]) blast
  have pb: "pendingBookings w2 = pendingBookings w"
    by (simp add: w2 w1 w0_def)
  have R0: "fst (submitToSupabase env p w0) = R"
    by (simp add: R_def submitToSupabase_fst)
  have G1: "fst (submitToGoogleForm env c w1) = G"
    by (simp add: G_def submitToGoogleForm_fst)
  have L2: "fst (storeBookingLocally env c w2) = L"
    unfolding L_def by (rule store_fst_cong) (rule pb)
  have w': "w' = (if R then w1\<lparr>currentStep := thank_you, isSubmitting := False\<rparr>
         else if G then w2\<lparr>currentStep := thank_you, isSubmitting := False\<rparr>
         else if L then w3\<lparr>currentStep := thank_you, isSubmitting := False\<rparr>
         else (alert failure_message w3)\<lparr>isSubmitting := False\<rparr>)"
    unfolding w'_def submitBooking_daily [OF assms] Let_def
    by (simp only: p_def [symmetric] c_def [symmetric] w0_def [symmetric] w1_def [symmetric]
        w2_def [symmetric] w3_def [symmetric] R0 G1 L2)
  have a1: "attempts es = []"
    using es by (intro attempts_requests) auto
  have a2: "attempts es' = []"
    using es' by (intro attempts_requests) auto
  have g: "G \<longleftrightarrow> relay_fetch env (JObj c)"
    by (simp add: G_def submitToGoogleForm_fst)
  have written: "\<exists>xs entry. existingBookings (pendingBookings w) = Some (JArr xs)
        \<and> st = Item (JArr (xs @ [JObj entry]))
        \<and> (\<forall>k. k \<noteq> ''savedAt'' \<and> k \<noteq> ''id'' \<longrightarrow> map_of entry k = map_of c k)
        \<and> (\<exists>n. map_of entry ''id'' = Some (JStr (''local-'' @ n)))" if L
  proof -
    from that obtain xs where xs: "existingBookings (pendingBookings w) = Some (JArr xs)"
      by (auto simp: L_def store_fst)
    with that L2 pb st' [of xs]
    have "st = Item (JArr (xs @ [JObj (bookingWithTimestamp env c)]))"
      by simp
    with xs bookingWithTimestamp_fields [where env = env and p = c] show ?thesis
      by blast
  qed
  have "effects w' = effects w @ since w w'
          \<and> alerts w' = alerts w @ alerts_since w w'
          \<and> attempts (since w w')
              = (if R then [RemoteStore] else if G then [RemoteStore, FormRelay]
                 else [RemoteStore, FormRelay, LocalStorage])
          \<and> (G \<longleftrightarrow> relay_fetch env (JObj c))
          \<and> (R \<or> G \<longrightarrow> pendingBookings w' = pendingBookings w)
          \<and> (\<not> R \<and> \<not> G \<and> L \<longrightarrow>
                (\<exists>xs entry. existingBookings (pendingBookings w) = Some (JArr xs)
                   \<and> pendingBookings w' = Item (JArr (xs @ [JObj entry]))
                   \<and> (\<forall>k. k \<noteq> ''savedAt'' \<and> k \<noteq> ''id'' \<longrightarrow> map_of entry k = map_of c k)
                   \<and> (\<exists>n. map_of entry ''id'' = Some (JStr (''local-'' @ n)))))
          \<and> (R \<or> G \<or> L \<longrightarrow>
                currentStep w' = thank_you \<and> failure_message \<notin> set (alerts_since w w'))
          \<and> (\<not> R \<and> \<not> G \<and> \<not> L \<longrightarrow>
                currentStep w' = currentStep w \<and> pendingBookings w' = pendingBookings w
                \<and> alerts_since w w' \<noteq> [] \<and> last (alerts_since w w') = failure_message)
          \<and> \<not> isSubmitting w'"
  proof (cases R)
    case True
    with w' have "w' = w1\<lparr>currentStep := thank_you, isSubmitting := False\<rparr>"
      by simp
    with True as a1 g show ?thesis
      by (simp add: w1 w0_def since_def alerts_since_def)
  next
    case False
    note nR = this
    show ?thesis
    proof (cases G)
      case True
      with nR w' have "w' = w2\<lparr>currentStep := thank_you, isSubmitting := False\<rparr>"
        by simp
      with nR True as a1 g show ?thesis
        by (simp add: w2 w1 w0_def since_def alerts_since_def attempts_append)
    next
      case False
      note nG = this
      show ?thesis
      proof (cases L)
        case True
        with nR nG w' have e: "w' = w3\<lparr>currentStep := thank_you, isSubmitting := False\<rparr>"
          by simp
        from written [OF True] have "\<exists>xs entry. existingBookings (pendingBookings w) = Some (JArr xs)
            \<and> pendingBookings w' = Item (JArr (xs @ [JObj entry]))
            \<and> (\<forall>k. k \<noteq> ''savedAt'' \<and> k \<noteq> ''id'' \<longrightarrow> map_of entry k = map_of c k)
            \<and> (\<exists>n. map_of entry ''id'' = Some (JStr (''local-'' @ n)))"
          by (simp add: e w3)
        with nR nG True as a1 a2 g e show ?thesis
          by (simp add: w3 w2 w1 w0_def since_def alerts_since_def attempts_append)
      next
        case False
        with nR nG w' have e: "w' = (alert failure_message w3)\<lparr>isSubmitting := False\<rparr>"
          by simp
        from False L2 st pb have "st = pendingBookings w"
          by simp
        with nR nG False as a1 a2 g e show ?thesis
          by (simp add: w3 w2 w1 w0_def since_def alerts_since_def attempts_append alert_def)
      qed
    qed
  qed
  then show ?thesis
    unfolding Let_def p_def c_def R_def G_def L_def w'_def .
qed

text \<open>
  Where the database call throws and the relay is unreachable but the storage works, the
  three tiers are entered in order, one entry is stored and the confirmation is reached.
\<close>

theorem daily_fallback_witness:
  "bookingType filledForm = daily
   \<and> attempts (since world0 (submitBooking env_offline (Some pulsar) filledForm world0))
       = [RemoteStore, FormRelay, LocalStorage]
   \<and> (\<exists>xs entry. existingBookings (pendingBookings world0) = Some (JArr xs)
         \<and> pendingBookings (submitBooking env_offline (Some pulsar) filledForm world0)
             = Item (JArr (xs @ [JObj entry]))
         \<and> (\<forall>k. k \<noteq> ''savedAt'' \<and> k \<noteq> ''id'' \<longrightarrow>
               map_of entry k
               = map_of (commonPayload env_offline pulsar filledForm
                           (calculatePrice (Some pulsar) filledForm)) k)
         \<and> (\<exists>n. map_of entry ''id'' = Some (JStr (''local-'' @ n))))
   \<and> currentStep (submitBooking env_offline (Some pulsar) filledForm world0) = thank_you"
proof -
  let ?p = "supabasePayload pulsar filledForm (calculatePrice (Some pulsar) filledForm)"
  let ?c = "commonPayload env_offline pulsar filledForm (calculatePrice (Some pulsar) filledForm)"
  have h: "bookingType filledForm = daily"
    by (simp add: filledForm_def)
  have r: "\<not> fst (submitToSupabase env_offline ?p world0)"
    by (simp add: submitToSupabase_fst env_offline_def env_online_def)
  have g: "\<not> fst (submitToGoogleForm env_offline ?c world0)"
    by (simp add: submitToGoogleForm_fst env_offline_def env_online_def)
  have l: "fst (storeBookingLocally env_offline ?c world0)"
    by (simp add: store_fst existingBookings_def world0_def env_offline_def env_online_def)
  from daily_fallback [OF h, of pulsar env_offline world0] r g l h show ?thesis
    unfolding Let_def by presburger
qed

subsection \<open>Missing credentials\<close>


text \<open>
  The two remote functions test the same two variables themselves, inside their \<^verbatim>\<open>try\<close>
  and ahead of the request: with a variable missing they would answer \<^verbatim>\<open>false\<close> having
  sent nothing and shown nothing, and the body of \<^verbatim>\<open>submitBooking\<close> would go on to the
  relay and the local storage, as after a database call that throws. This is the path
  that treats a missing credential as a failed remote write.
\<close>

lemma guard_in_the_tiers:
  assumes "unset (VITE_SUPABASE_URL env) \<or> unset (VITE_SUPABASE_ANON_KEY env)"
  shows "submitToSupabase env p w = (False, emit (Attempt RemoteStore) w)"
    and "submitWeeklyBookingToSupabase env p w = (False, emit (Attempt RemoteStore) w)"
  using assms by (auto simp: submitToSupabase_def submitWeeklyBookingToSupabase_def Let_def)

lemma fallback_behind_the_guard:
  "attempts (since world0 (submitBooking env_unconfigured (Some pulsar) filledForm world0))
     = [RemoteStore, FormRelay, LocalStorage]
   \<and> \<not> list_ex is_insert
         (since world0 (submitBooking env_unconfigured (Some pulsar) filledForm world0))
   \<and> since world0 (submitBooking env_unconfigured (Some pulsar) filledForm world0)
     = filter (\<lambda>e. \<not> is_insert e)
         (since world0 (submitBooking env_offline (Some pulsar) filledForm world0))
   \<and> submitBooking env_unconfigured (Some pulsar) filledForm world0
     = (submitBooking env_offline (Some pulsar) filledForm world0)
         \<lparr>effects := effects (submitBooking env_unconfigured (Some pulsar) filledForm world0)\<rparr>
   \<and> currentStep (submitBooking env_unconfigured (Some pulsar) filledForm world0) = thank_you"
  by code_simp


subsection \<open>Matching decides the language\<close>

lemma nullable_lang: "nullable r \<longleftrightarrow> [] \<in> lang r"
  by (induction r) (auto intro: star_nil)

lemma star_cons:
  assumes "x \<in> star A" and "x = c # s"
  shows "\<exists>u v. c # u \<in> A \<and> v \<in> star A \<and> s = u @ v"
  using assms
proof (induction arbitrary: s rule: star.induct)
  case star_nil
  then show ?case by simp
next
  case (star_step u v)
  show ?case
  proof (cases u)
    case Nil
    with star_step show ?thesis by simp
  next
    case (Cons d u')
    with star_step.prems have "d = c" and "s = u' @ v"
      by simp_all
    with Cons star_step.hyps show ?thesis
      by blast
  qed
qed

lemma deriv_lang: "s \<in> lang (deriv c r) \<longleftrightarrow> c # s \<in> lang r"
proof (induction r arbitrary: s)
  case (Then a b)
  have "c # s \<in> lang (Then a b) \<longleftrightarrow>
      (\<exists>u v. u \<in> lang (deriv c a) \<and> v \<in> lang b \<and> s = u @ v) \<or> (nullable a \<and> c # s \<in> lang b)"
    (is "?l \<longleftrightarrow> ?r")
  proof
    assume ?l
    then obtain u v where uv: "c # s = u @ v" "u \<in> lang a" "v \<in> lang b"
      by auto
    show ?r
    proof (cases u)
      case Nil
      with uv show ?thesis
        by (auto simp: nullable_lang)
    next
      case (Cons d u')
      with uv have "c # u' \<in> lang a" and s: "s = u' @ v"
        by simp_all
      then have "u' \<in> lang (deriv c a)"
        by (simp add: Then.IH(1))
      with s uv(3) show ?thesis
        by blast
    qed
  next
    assume ?r
    then show ?l
    proof
      assume "\<exists>u v. u \<in> lang (deriv c a) \<and> v \<in> lang b \<and> s = u @ v"
      then obtain u v where "c # u \<in> lang a" "v \<in> lang b" "s = u @ v"
        by (auto simp: Then.IH(1))
      then have "c # s = (c # u) @ v \<and> c # u \<in> lang a \<and> v \<in> lang b"
        by simp
      then show ?l
        by (simp del: append_Cons) blast
    next
      assume "nullable a \<and> c # s \<in> lang b"
      then have "c # s = [] @ (c # s) \<and> [] \<in> lang a \<and> c # s \<in> lang b"
        by (simp add: nullable_lang)
      then show ?l
        by (simp del: append_Nil) blast
    qed
  qed
  then show ?case
    by (auto simp: Then.IH(2))
next
  case (Many a)
  have "c # s \<in> star (lang a) \<longleftrightarrow> (\<exists>u v. c # u \<in> lang a \<and> v \<in> star (lang a) \<and> s = u @ v)"
    (is "?l \<longleftrightarrow> ?r")
  proof
    assume ?l
    then show ?r
      by (rule star_cons) simp
  next
    assume ?r
    then obtain u v where uv: "c # u \<in> lang a" "v \<in> star (lang a)" "s = u @ v"
      by blast
    from star_step [OF uv(1) uv(2)] uv(3) show ?l
      by simp
  qed
  then show ?case
    by (auto simp: Many.IH)
qed auto

lemma RegExp_test_lang: "RegExp_test r s \<longleftrightarrow> s \<in> lang r"
  unfolding RegExp_test_def
  by (induction s arbitrary: r) (simp_all add: nullable_lang deriv_lang)

subsection \<open>The contact pattern\<close>

lemma lang_Then: "s \<in> lang (Then a b) \<longleftrightarrow> (\<exists>u v. s = u @ v \<and> u \<in> lang a \<and> v \<in> lang b)"
  by auto

lemma lang_Then_Class:
  "s \<in> lang (Then (Class p) r) \<longleftrightarrow> (\<exists>c t. s = c # t \<and> p c \<and> t \<in> lang r)"
proof
  assume "s \<in> lang (Then (Class p) r)"
  then show "\<exists>c t. s = c # t \<and> p c \<and> t \<in> lang r"
    by auto
next
  assume "\<exists>c t. s = c # t \<and> p c \<and> t \<in> lang r"
  then obtain c t where "s = [c] @ t" "[c] \<in> lang (Class p)" "t \<in> lang r"
    by auto
  then show "s \<in> lang (Then (Class p) r)"
    unfolding lang_Then by blast
qed

lemma lang_Exactly_Class:
  "s \<in> lang (Exactly n (Class p)) \<longleftrightarrow> length s = n \<and> (\<forall>c \<in> set s. p c)"
proof (induction n arbitrary: s)
  case 0
  then show ?case by auto
next
  case (Suc n)
  have "s \<in> lang (Exactly (Suc n) (Class p))
      \<longleftrightarrow> (\<exists>c t. s = c # t \<and> p c \<and> t \<in> lang (Exactly n (Class p)))"
    unfolding Exactly.simps by (rule lang_Then_Class)
  also have "\<dots> \<longleftrightarrow> length s = Suc n \<and> (\<forall>c \<in> set s. p c)"
    unfolding Suc.IH by (cases s) auto
  finally show ?case .
qed

lemma lang_Literal: "s \<in> lang (Literal t) \<longleftrightarrow> s = t"
  by (induction t arbitrary: s) auto

lemma is_digit_iff: "is_digit c \<longleftrightarrow> c \<in> set ''0123456789''"
proof
  assume "is_digit c"
  then have "(of_char c :: nat) \<in> {48, 49, 50, 51, 52, 53, 54, 55, 56, 57}"
    unfolding is_digit_def by simp arith
  then show "c \<in> set ''0123456789''"
    by (simp add: of_char_eq_iff [where ?'a = nat, symmetric] del: of_char_eq_iff)
next
  assume "c \<in> set ''0123456789''"
  then show "is_digit c"
    by (auto simp: is_digit_def)
qed

lemma between_6_9_iff: "between CHR ''6'' CHR ''9'' c \<longleftrightarrow> c \<in> set ''6789''"
proof
  assume "between CHR ''6'' CHR ''9'' c"
  then have "(of_char c :: nat) \<in> {54, 55, 56, 57}"
    unfolding between_def by simp arith
  then show "c \<in> set ''6789''"
    by (simp add: of_char_eq_iff [where ?'a = nat, symmetric] del: of_char_eq_iff)
next
  assume "c \<in> set ''6789''"
  then show "between CHR ''6'' CHR ''9'' c"
    by (auto simp: between_def)
qed

lemma mobile_number_lang:
  "s \<in> lang (Then (Class (between CHR ''6'' CHR ''9'')) (Exactly 9 (Class is_digit)))
   \<longleftrightarrow> mobile_number s"
proof -
  have "s \<in> lang (Then (Class (between CHR ''6'' CHR ''9'')) (Exactly 9 (Class is_digit)))
      \<longleftrightarrow> (\<exists>c t. s = c # t \<and> c \<in> set ''6789'' \<and> length t = 9
                 \<and> (\<forall>x \<in> set t. x \<in> set ''0123456789''))"
    unfolding lang_Then_Class lang_Exactly_Class between_6_9_iff is_digit_iff ..
  also have "\<dots> \<longleftrightarrow> mobile_number s"
  proof -
    define D where "D = set ''0123456789''"
    define S where "S = set ''6789''"
    have "S \<subseteq> D"
      unfolding D_def S_def by auto
    then have "(\<exists>c t. s = c # t \<and> c \<in> S \<and> length t = 9 \<and> (\<forall>x \<in> set t. x \<in> D))
        \<longleftrightarrow> length s = 10 \<and> (\<forall>c \<in> set s. c \<in> D) \<and> hd s \<in> S"
      by (cases s) auto
    then show ?thesis
      unfolding mobile_number_def D_def S_def .
  qed
  finally show ?thesis .
qed

lemma contact_pattern_lang: "s \<in> lang contact_pattern \<longleftrightarrow> valid_contact s"
proof -
  let ?m = "Then (Class (between CHR ''6'' CHR ''9'')) (Exactly 9 (Class is_digit))"
  have o: "u \<in> lang (Opt (Literal ''+91'')) \<longleftrightarrow> u = [] \<or> u = ''+91''" for u
    unfolding Opt_def lang.simps(4) Un_iff lang_Literal by simp
  have "s \<in> lang contact_pattern \<longleftrightarrow>
      (\<exists>u v. s = u @ v \<and> u \<in> lang (Opt (Literal ''+91'')) \<and> v \<in> lang ?m)"
    unfolding contact_pattern_def by (rule lang_Then)
  also have "\<dots> \<longleftrightarrow> (\<exists>u v. s = u @ v \<and> (u = [] \<or> u = ''+91'') \<and> mobile_number v)"
    unfolding o mobile_number_lang ..
  also have "\<dots> \<longleftrightarrow> valid_contact s"
  proof
    assume "\<exists>u v. s = u @ v \<and> (u = [] \<or> u = ''+91'') \<and> mobile_number v"
    then show "valid_contact s"
      unfolding valid_contact_def by auto
  next
    assume "valid_contact s"
    then consider "mobile_number s" | t where "s = ''+91'' @ t" "mobile_number t"
      unfolding valid_contact_def by blast
    then show "\<exists>u v. s = u @ v \<and> (u = [] \<or> u = ''+91'') \<and> mobile_number v"
    proof cases
      case 1
      then have "s = [] @ s \<and> ([] = [] \<or> [] = ''+91'') \<and> mobile_number s"
        by simp
      then show ?thesis
        by (rule_tac x = "[]" in exI) blast
    next
      case 2
      then show ?thesis
        by blast
    qed
  qed
  finally show ?thesis .
qed

lemma contact_test: "RegExp_test contact_pattern s \<longleftrightarrow> valid_contact s"
  by (simp only: RegExp_test_lang contact_pattern_lang)

lemma mobile_number_length: "mobile_number s \<Longrightarrow> length s = 10"
  unfolding mobile_number_def by (rule conjunct1)

lemma valid_contact_nonempty: "valid_contact s \<Longrightarrow> s \<noteq> []"
  unfolding valid_contact_def using mobile_number_length by fastforce

subsection \<open>The validator, field by field\<close>

lemma contact_error_frame:
  "contact_error (check_name f e) = contact_error e"
  "contact_error (check_address f e) = contact_error e"
  "contact_error (check_days f e) = contact_error e"
  "contact_error (check_weekly z now f e) = contact_error e"
  "contact_error (check_daily z now f e) = contact_error e"
  by (simp_all add: check_name_def check_address_def check_days_def check_weekly_def
      check_daily_def Let_def split: option.splits)

lemma contact_error_validateForm:
  "contact_error (validateForm z now f) = contact_error (check_contact f no_errors)"
  by (simp add: validateForm_def contact_error_frame check_contact_def Let_def)

text \<open>
  C3. The validator reports no contact error exactly when the contact, with all white space
  removed, is a ten-digit mobile number starting with 6 to 9, optionally after \<open>+91\<close>.
  When nothing is left after removing the white space the error is the required-field
  message; otherwise, on a text that is not such a number, it is the invalid-number message.
\<close>

theorem contact_rule:
  "(contact_error (validateForm z now f) = None
      \<longleftrightarrow> valid_contact (strip_spaces (contact f)))
   \<and> (strip_spaces (contact f) = [] \<longrightarrow>
        contact_error (validateForm z now f) = Some ''Contact number is required'')
   \<and> (strip_spaces (contact f) \<noteq> [] \<and> \<not> valid_contact (strip_spaces (contact f)) \<longrightarrow>
        contact_error (validateForm z now f)
          = Some ''Enter a valid 10-digit Indian mobile number'')"
  using valid_contact_nonempty [of "strip_spaces (contact f)"]
  by (auto simp: contact_error_validateForm check_contact_def Let_def contact_test no_errors_def)

text \<open>
  The examples of the specification: \<open>12345\<close> is rejected, \<open>9876543210\<close> and
  \<open>+919876543210\<close> are accepted, and a contact of spaces only is reported as missing.
\<close>

theorem contact_rule_witness:
  "contact_error (validateForm zone_Kolkata 1736899200000 (filledForm\<lparr>contact := ''12345''\<rparr>))
     = Some ''Enter a valid 10-digit Indian mobile number''
   \<and> contact_error (validateForm zone_Kolkata 1736899200000 (filledForm\<lparr>contact := ''9876543210''\<rparr>)) = None
   \<and> contact_error (validateForm zone_Kolkata 1736899200000 (filledForm\<lparr>contact := ''+919876543210''\<rparr>)) = None
   \<and> contact_error (validateForm zone_Kolkata 1736899200000 (filledForm\<lparr>contact := ''  ''\<rparr>))
     = Some ''Contact number is required''"
proof -
  have m: "mobile_number ''9876543210''"
    by (simp add: mobile_number_def)
  have a: "\<not> valid_contact ''12345''"
    by (auto simp: valid_contact_def dest!: mobile_number_length)
  have b: "valid_contact ''9876543210''"
    using m by (simp add: valid_contact_def)
  have "''+919876543210'' = ''+91'' @ ''9876543210''"
    by simp
  with m have c: "valid_contact ''+919876543210''"
    unfolding valid_contact_def by blast
  have s: "strip_spaces ''12345'' = ''12345''" "strip_spaces ''9876543210'' = ''9876543210''"
    "strip_spaces ''+919876543210'' = ''+919876543210''" "strip_spaces ''  '' = []"
    by (simp_all add: strip_spaces_def is_space_def)
  from contact_rule [of zone_Kolkata 1736899200000 "filledForm\<lparr>contact := ''12345''\<rparr>"]
    contact_rule [of zone_Kolkata 1736899200000 "filledForm\<lparr>contact := ''9876543210''\<rparr>"]
    contact_rule [of zone_Kolkata 1736899200000 "filledForm\<lparr>contact := ''+919876543210''\<rparr>"]
    contact_rule [of zone_Kolkata 1736899200000 "filledForm\<lparr>contact := ''  ''\<rparr>"]
    a b c s
  show ?thesis
    by simp
qed

subsection \<open>The return date of a weekly booking\<close>

lemma Date_new_nonempty: "Date_new z s = Some t \<Longrightarrow> s \<noteq> []"
  by (auto simp: Date_new_def)

text \<open>\<open>Date_new\<close> on a date without a time does not depend on the time zone.\<close>

lemma Date_new_date_only:
  "length s = 10 \<Longrightarrow>
   Date_new z s = (case parse_ymd s of None \<Rightarrow> None | Some d \<Rightarrow> TimeClip (MakeDate d 0))"
  by (simp add: Date_new_def)

text \<open>The number of days from \<open>p\<close> to \<open>r\<close>, a started day counting as a whole one.\<close>

lemma daysDifference_bounds:
  "\<exists>d. daysDifference (Some r) (Some p) = Some d
       \<and> (d - 1) * msPerDay < r - p \<and> r - p \<le> d * msPerDay"
proof -
  define x :: rat where "x = of_int (r - p) / of_int (1000 * 60 * 60 * 24)"
  define d where "d = \<lceil>x\<rceil>"
  have "of_int d - 1 < x" and "x \<le> of_int d"
    unfolding d_def by linarith+
  then have "(of_int d - 1) * 86400000 < (of_int (r - p) :: rat)"
    and "(of_int (r - p) :: rat) \<le> of_int d * 86400000"
    unfolding x_def by (simp_all add: field_simps)
  then have "(of_int ((d - 1) * 86400000) :: rat) < of_int (r - p)"
    and "(of_int (r - p) :: rat) \<le> of_int (d * 86400000)"
    by simp_all
  then have "(d - 1) * 86400000 < r - p" and "r - p \<le> d * 86400000"
    by (simp_all only: of_int_less_iff of_int_le_iff)
  moreover have "daysDifference (Some r) (Some p) = Some d"
    by (simp add: daysDifference_def Math_ceil_def d_def x_def)
  ultimately show ?thesis
    by (simp add: msPerDay_def)
qed

lemma returnDate_error_frame:
  "returnDate_error (check_name f e) = returnDate_error e"
  "returnDate_error (check_contact f e) = returnDate_error e"
  "returnDate_error (check_address f e) = returnDate_error e"
  "returnDate_error (check_days f e) = returnDate_error e"
  "bookingType f = weekly \<Longrightarrow> check_daily z now f e = e"
  by (simp_all add: check_name_def check_contact_def check_address_def check_days_def
      check_daily_def Let_def)

lemma returnDate_error_weekly:
  assumes "bookingType f = weekly" and "pickupDate f \<noteq> []" and "returnDate f \<noteq> []"
    and "\<not> date_less_eq (Date_new z (returnDate f)) (Date_new z (pickupDate f))"
    and "daysDifference (Date_new z (returnDate f)) (Date_new z (pickupDate f)) = Some d"
    and "returnDate_error e = None"
  shows "returnDate_error (check_weekly z now f e) =
     (if \<bar>d - weeks f * 7\<bar> > 2
      then Some (approximately_message (weeks f * 7) (weeks f)) else None)"
  using assms by (simp add: check_weekly_def Let_def)

text \<open>
  C4. For a weekly booking whose two dates are valid, the return date after the pickup
  date, the validator reports a return-date error exactly when the number of days between
  them differs from seven times the number of weeks by more than two; the error is then the
  message that names that expected number of days.
\<close>

theorem weekly_return_window:
  assumes "bookingType f = weekly"
    and "Date_new z (pickupDate f) = Some p" and "Date_new z (returnDate f) = Some r"
    and "p < r"
  shows "\<exists>d. (d - 1) * msPerDay < r - p \<and> r - p \<le> d * msPerDay
       \<and> returnDate_error (validateForm z now f) =
           (if \<bar>d - weeks f * 7\<bar> > 2
            then Some (''Return date should be approximately '' @ String_int (weeks f * 7)
                       @ '' days after pickup date for '' @ String_int (weeks f) @ '' week''
                       @ (if weeks f > 1 then ''s'' else []))
            else None)"
proof -
  obtain d where d: "daysDifference (Some r) (Some p) = Some d"
    and b: "(d - 1) * msPerDay < r - p" "r - p \<le> d * msPerDay"
    using daysDifference_bounds [of r p] by blast
  let ?e = "check_days f (check_address f (check_contact f (check_name f no_errors)))"
  have e: "returnDate_error ?e = None"
    by (simp add: returnDate_error_frame no_errors_def)
  have n: "pickupDate f \<noteq> []" "returnDate f \<noteq> []"
    using assms(2,3) by (auto dest: Date_new_nonempty)
  have l: "\<not> date_less_eq (Date_new z (returnDate f)) (Date_new z (pickupDate f))"
    using assms(2-4) by (simp add: date_less_eq_def)
  have "returnDate_error (validateForm z now f) = returnDate_error (check_weekly z now f ?e)"
    by (simp add: validateForm_def returnDate_error_frame(5) [OF assms(1)])
  also have "\<dots> = (if \<bar>d - weeks f * 7\<bar> > 2
      then Some (approximately_message (weeks f * 7) (weeks f)) else None)"
    using assms(1) n l d e unfolding assms(2,3) [symmetric]
    by (rule returnDate_error_weekly)
  finally show ?thesis
    using b unfolding approximately_message_def by blast
qed

text \<open>
  The example of the specification: two weeks from 2025-01-15 with the return on
  2025-01-20 is rejected; 14 days are expected and there are 5.
\<close>

theorem weekly_return_window_witness:
  "bookingType (filledForm\<lparr>bookingType := weekly, returnDate := ''2025-01-20''\<rparr>) = weekly
   \<and> Date_new zone_Kolkata (pickupDate (filledForm\<lparr>bookingType := weekly, returnDate := ''2025-01-20''\<rparr>))
       = Some 1736899200000
   \<and> Date_new zone_Kolkata (returnDate (filledForm\<lparr>bookingType := weekly, returnDate := ''2025-01-20''\<rparr>))
       = Some 1737331200000
   \<and> returnDate_error
        (validateForm zone_Kolkata 1736899200000 (filledForm\<lparr>bookingType := weekly, returnDate := ''2025-01-20''\<rparr>))
       = Some ''Return date should be approximately 14 days after pickup date for 2 weeks''"
proof -
  let ?f = "filledForm\<lparr>bookingType := weekly, returnDate := ''2025-01-20''\<rparr>"
  have h1: "bookingType ?f = weekly"
    by simp
  have "(case parse_ymd ''2025-01-15'' of None \<Rightarrow> None | Some d \<Rightarrow> TimeClip (MakeDate d 0))
      = Some 1736899200000"
    by code_simp
  then have h2: "Date_new zone_Kolkata (pickupDate ?f) = Some 1736899200000"
    by (simp add: filledForm_def Date_new_date_only)
  have "(case parse_ymd ''2025-01-20'' of None \<Rightarrow> None | Some d \<Rightarrow> TimeClip (MakeDate d 0))
      = Some 1737331200000"
    by code_simp
  then have h3: "Date_new zone_Kolkata (returnDate ?f) = Some 1737331200000"
    by (simp add: Date_new_date_only)
  have h4: "(1736899200000 :: int) < 1737331200000"
    by simp
  have w: "weeks ?f = 2"
    by (simp add: filledForm_def)
  have s: "String_int 14 = ''14''" "String_int 2 = ''2''"
    by code_simp+
  from weekly_return_window [OF h1 h2 h3 h4, of 1736899200000] obtain d where
    b: "(d - 1) * msPerDay < 1737331200000 - 1736899200000"
       "1737331200000 - 1736899200000 \<le> d * msPerDay"
    and e: "returnDate_error (validateForm zone_Kolkata 1736899200000 ?f) =
           (if \<bar>d - weeks ?f * 7\<bar> > 2
            then Some (''Return date should be approximately '' @ String_int (weeks ?f * 7)
                       @ '' days after pickup date for '' @ String_int (weeks ?f) @ '' week''
                       @ (if weeks ?f > 1 then ''s'' else []))
            else None)"
    by blast
  from b have "86400000 * d < 518400000" and "432000000 \<le> 86400000 * d"
    by (simp_all add: msPerDay_def algebra_simps)
  then have "d = 5"
    by linarith
  with e w s have "returnDate_error (validateForm zone_Kolkata 1736899200000 ?f)
      = Some ''Return date should be approximately 14 days after pickup date for 2 weeks''"
    by simp
  with h1 h2 h3 show ?thesis
    by blast
qed

subsection \<open>The computed return date\<close>

lemma MonthFromTime_range: "0 \<le> MonthFromTime t \<and> MonthFromTime t \<le> 11"
  by (simp add: MonthFromTime_def Let_def)

text \<open>Setting the day of the month to the present one plus \<open>n\<close> moves the day number by \<open>n\<close>.\<close>

lemma MakeDay_plus:
  "MakeDay (YearFromTime t) (MonthFromTime t) (DateFromTime t + n) = Day t + n"
proof -
  have m: "MonthFromTime t div 12 = 0" "MonthFromTime t mod 12 = MonthFromTime t"
    using MonthFromTime_range [of t] by simp_all
  show ?thesis
    by (simp add: MakeDay_def Let_def m DateFromTime_def DayWithinYear_def InLeapYear_def)
qed

lemma Day_TimeWithinDay: "MakeDate (Day t) (TimeWithinDay t) = t"
  by (simp add: MakeDate_def Day_def TimeWithinDay_def)

text \<open>
  \<^verbatim>\<open>d.setDate(d.getDate() + n)\<close> adds \<open>n\<close> days to the local time of \<open>d\<close>; the new time value
  is that local time read back with the offset in effect there.
\<close>

lemma setDate_getDate:
  "setDate z (Some t) (map_option (\<lambda>d. d + n) (getDate z (Some t)))
     = TimeClip (UTC z (LocalTime z t + n * msPerDay))"
proof -
  have "MakeDate (Day (LocalTime z t) + n) (TimeWithinDay (LocalTime z t))
      = MakeDate (Day (LocalTime z t)) (TimeWithinDay (LocalTime z t)) + n * msPerDay"
    by (simp add: MakeDate_def algebra_simps)
  then show ?thesis
    by (simp add: setDate_def getDate_def Let_def MakeDay_plus Day_TimeWithinDay)
qed

text \<open>
  Where the offset of local time is the same at the pickup and at the return (in India, for
  one: the offset is constant), the computed date is the date of the pickup time plus \<open>n\<close>
  whole days.
\<close>

lemma date_after_same_offset:
  assumes "Date_new z s = Some p"
    and "LocalTZA z (LocalTime z p + n * msPerDay) False = LocalTZA z p True"
    and "\<bar>p + n * msPerDay\<bar> \<le> 8640000000000000"
  shows "date_after z s n = Inr (before_T (ISOString (p + n * msPerDay)))"
proof -
  have "UTC z (LocalTime z p + n * msPerDay) = p + n * msPerDay"
    using assms(2) by (simp add: UTC_def LocalTime_def)
  then show ?thesis
    using assms(1,3)
    by (simp add: date_after_def Let_def setDate_getDate TimeClip_def toISOString_def)
qed

lemma return_date_recomputed:
  assumes "sets_pickupDate c \<or> (if bookingType (assign c prev) = weekly then sets_weeks c
                                  else sets_days c)"
    and "n = (if bookingType (assign c prev) = weekly then weeks (assign c prev) * 7
              else days (assign c prev))"
    and "n \<noteq> 0"
    and "Date_new z (pickupDate (assign c prev)) = Some p"
    and "LocalTZA z (LocalTime z p + n * msPerDay) False = LocalTZA z p True"
    and "\<bar>p + n * msPerDay\<bar> \<le> 8640000000000000"
  shows "handleInputChange z c prev
     = Inr ((assign c prev)\<lparr>returnDate := before_T (ISOString (p + n * msPerDay))\<rparr>)"
proof -
  have ne: "pickupDate (assign c prev) \<noteq> []"
    using assms(4) by (rule Date_new_nonempty)
  have d: "date_after z (pickupDate (assign c prev)) n
      = Inr (before_T (ISOString (p + n * msPerDay)))"
    using assms(4-6) by (rule date_after_same_offset)
  show ?thesis
  proof (cases "bookingType (assign c prev)")
    case weekly
    with assms(1-3) ne d show ?thesis
      by (auto simp: handleInputChange_def Let_def)
  next
    case daily
    with assms(1-3) ne d show ?thesis
      by (auto simp: handleInputChange_def Let_def)
  qed
qed

text \<open>
  The example of the specification, in India: a pickup on 2025-01-15 and two weeks give
  2025-01-29.
\<close>

lemma return_date_example:
  "handleInputChange zone_Kolkata (Set_weeks (Number 2))
     (initialForm\<lparr>bookingType := weekly, pickupDate := ''2025-01-15''\<rparr>)
   = Inr (initialForm\<lparr>bookingType := weekly, pickupDate := ''2025-01-15'', weeks := 2,
            returnDate := ''2025-01-29''\<rparr>)"
  by code_simp

text \<open>
  C7 asks for the return date to be the pickup date plus the days (or seven times the
  weeks). The component computes it with \<^verbatim>\<open>setDate\<close>, which works in local time, on a date
  parsed as UTC midnight, and prints it with \<^verbatim>\<open>toISOString\<close>, which works in UTC. When
  the clocks of the host go forward between the two dates, the local day gained is an hour
  short and the printed date is one day early: in London, one week from 2025-03-25 gives
  2025-03-31, while the pickup time plus seven days is on 2025-04-01.
\<close>

theorem return_date_one_day_early:
  "handleInputChange zone_London (Set_pickupDate ''2025-03-25'')
     (initialForm\<lparr>bookingType := weekly\<rparr>)
   = Inr (initialForm\<lparr>bookingType := weekly, pickupDate := ''2025-03-25'',
            returnDate := ''2025-03-31''\<rparr>)
   \<and> Date_new zone_London ''2025-03-25'' = Some 1742860800000
   \<and> before_T (ISOString (1742860800000 + 7 * msPerDay)) = ''2025-04-01''"
  by code_simp

end
